theory Spec2Isabelle
  imports Complex_Main
begin

section \<open>Reconciliation of two collections of Identity Sets\<close>

text \<open>
  \<^verbatim>\<open>results_compre_Lawrence.py\<close> and \<^verbatim>\<open>schema_retrevie.py\<close> both reduce every record to a
  Python \<^verbatim>\<open>set\<close> of identifiers and then work on lists of such sets. The function
  \<^verbatim>\<open>find_match\<close> is the same text in both files:
  \<^verbatim>\<open>
  def find_match(opportunity, other_opportunities):
      for other in other_opportunities:
          if opportunity.intersection(other):
              return True
      return False
  \<close>
  A Python set is truthy exactly when it is not empty. The \<^verbatim>\<open>for\<close> loop with its early
  \<^verbatim>\<open>return\<close> is a recursion over the list.
\<close>

fun find_match :: "'a set \<Rightarrow> 'a set list \<Rightarrow> bool" where
  "find_match opportunity [] = False"
| "find_match opportunity (other # other_opportunities) =
     (if opportunity \<inter> other \<noteq> {} then True
      else find_match opportunity other_opportunities)"

text \<open>
  The part of \<^verbatim>\<open>main\<close> between loading the two files and printing the report
  (lines 77 to 83 of \<^verbatim>\<open>results_compre_Lawrence.py\<close>, 73 to 79 of
  \<^verbatim>\<open>schema_retrevie.py\<close>): two list comprehensions, their lengths and the sum. The names
  are those of \<^verbatim>\<open>results_compre_Lawrence.py\<close>; \<^verbatim>\<open>schema_retrevie.py\<close> calls the first
  collection \<^verbatim>\<open>highergov_ops\<close> and computes the same.
\<close>

record 'a report =
  mismatch_records_csv :: "'a set list"
  mismatches_csv :: nat
  mismatch_records_results :: "'a set list"
  mismatches_results :: nat
  total_mismatches :: nat

definition main_report :: "'a set list \<Rightarrow> 'a set list \<Rightarrow> 'a report" where
  "main_report csv_ops results_ops =
     (let records_csv = filter (\<lambda>op. \<not> find_match op results_ops) csv_ops;
          n_csv = length records_csv;
          records_results = filter (\<lambda>op. \<not> find_match op csv_ops) results_ops;
          n_results = length records_results
      in \<lparr>mismatch_records_csv = records_csv,
          mismatches_csv = n_csv,
          mismatch_records_results = records_results,
          mismatches_results = n_results,
          total_mismatches = n_csv + n_results\<rparr>)"

section \<open>The paginated HTTP API (\<^verbatim>\<open>testing.py\<close>, \<^verbatim>\<open>highergov_api.py\<close>)\<close>

subsection \<open>Errors, requests and responses\<close>

text \<open>
  Every \<^verbatim>\<open>raise\<close> of the source, and every exception a call into a library can
  raise, is a value of \<open>error\<close>; a computation that can raise returns \<open>error + 'a\<close>
  with \<open>Inl\<close> for the exception.
\<close>

datatype error =
    ValueError string
  | HTTPError int
  | RequestException
  | JSONDecodeError
  | APIError
  | ZeroDivisionError

text \<open>
  The outside world (the HTTP API, the record store, the clock) is a state \<open>'s\<close> that
  every request reads and may change: a request function takes the state and returns its
  answer with the next state. A data set that stays fixed is then a world whose state no
  request changes, and a retry would show as a further state transition.

  \<^verbatim>\<open>requests.get(url, params=params)\<close> either raises or gives a response with a status
  code and a body; \<^verbatim>\<open>response.json()\<close> raises when the body is not JSON (\<open>None\<close>
  below). Of a JSON body the code reads \<^verbatim>\<open>results\<close> and \<^verbatim>\<open>links.next\<close>, each of which
  may be missing.
\<close>

datatype pval = PStr string | PInt int

record 'r body =
  results :: "'r list option"
  links_next :: "string option"

record 'r response =
  status_code :: int
  json :: "'r body option"

type_synonym ('s, 'r) requests_get =
  "'s \<Rightarrow> string \<Rightarrow> (string \<times> pval) list \<Rightarrow> (error + 'r response) \<times> 's"

text \<open>\<^verbatim>\<open>response.raise_for_status()\<close> raises for the status codes 400 to 599.\<close>

definition raise_for_status :: "'r response \<Rightarrow> error + unit" where
  "raise_for_status response =
     (if 400 \<le> status_code response \<and> status_code response < 600
      then Inl (HTTPError (status_code response)) else Inr ())"

text \<open>\<^verbatim>\<open>{k: v for k, v in params.items() if v is not None}\<close>\<close>

definition remove_none :: "(string \<times> pval option) list \<Rightarrow> (string \<times> pval) list" where
  "remove_none params = List.map_filter (\<lambda>(k, v). map_option (Pair k) v) params"

text \<open>
  The three statements \<^verbatim>\<open>requests.get\<close>, \<^verbatim>\<open>raise_for_status\<close>, \<^verbatim>\<open>response.json()\<close>,
  which \<^verbatim>\<open>testing.py\<close> writes inline in both loops and \<^verbatim>\<open>highergov_api.py\<close> in
  \<^verbatim>\<open>call_endpoint\<close>.
\<close>

definition get_json ::
  "('s, 'r) requests_get \<Rightarrow> string \<Rightarrow> (string \<times> pval) list \<Rightarrow> 's \<Rightarrow> (error + 'r body) \<times> 's"
where
  "get_json requests_get url params s =
     (case requests_get s url params of
        (Inl e, s') \<Rightarrow> (Inl e, s')
      | (Inr response, s') \<Rightarrow>
          (case raise_for_status response of
             Inl e \<Rightarrow> (Inl e, s')
           | Inr _ \<Rightarrow>
               (case json response of
                  None \<Rightarrow> (Inl JSONDecodeError, s')
                | Some data \<Rightarrow> (Inr data, s'))))"

text \<open>\<^verbatim>\<open>data.get('results', [])\<close>\<close>

definition get_results :: "'r body \<Rightarrow> 'r list" where
  "get_results data = (case results data of None \<Rightarrow> [] | Some rs \<Rightarrow> rs)"

text \<open>
  An argument typed \<^verbatim>\<open>Union[str, date]\<close>. A \<^verbatim>\<open>date\<close> object is kept as the text its
  \<^verbatim>\<open>isoformat()\<close> gives, which is all the code does with it.
\<close>

datatype str_or_date = AsStr string | AsDate string

fun date_text :: "str_or_date \<Rightarrow> string" where
  "date_text (AsStr s) = s"
| "date_text (AsDate d) = d"

subsection \<open>The request parameters\<close>

text \<open>
  The \<^verbatim>\<open>params\<close> dictionaries as the loops build them, in the source's key order, before
  the entries with value \<^verbatim>\<open>None\<close> are removed. The two date conversions
  (\<^verbatim>\<open>isinstance(..., date)\<close>, then \<^verbatim>\<open>isoformat()\<close>) that precede the loops are
  \<open>date_text\<close>. The fields \<^verbatim>\<open>ordering\<close> and \<^verbatim>\<open>search_id\<close> of the awards function
  carry the prefix \<open>award_\<close>, the opportunities function having fields of the same
  names.
\<close>

record awards_args =
  award_id :: "string option"
  awardee_key :: "int option"
  awardee_key_parent :: "int option"
  awardee_uei :: "string option"
  awardee_uei_parent :: "string option"
  awarding_agency_key :: "int option"
  funding_agency_key :: "int option"
  last_modified_date :: "str_or_date option"
  naics_code :: "string option"
  award_ordering :: "string option"
  parent_award_id :: "string option"
  psc_code :: "string option"
  award_search_id :: "string option"
  vehicle_key :: "int option"

definition awards_url :: string where
  "awards_url = ''https://www.highergov.com/api-external/contract/''"

definition awards_params ::
  "string \<Rightarrow> awards_args \<Rightarrow> int \<Rightarrow> int \<Rightarrow> (string \<times> pval option) list"
where
  "awards_params api_key a page_number page_size =
     [(''api_key'', Some (PStr api_key)),
      (''award_id'', map_option PStr (award_id a)),
      (''awardee_key'', map_option PInt (awardee_key a)),
      (''awardee_key_parent'', map_option PInt (awardee_key_parent a)),
      (''awardee_uei'', map_option PStr (awardee_uei a)),
      (''awardee_uei_parent'', map_option PStr (awardee_uei_parent a)),
      (''awarding_agency_key'', map_option PInt (awarding_agency_key a)),
      (''funding_agency_key'', map_option PInt (funding_agency_key a)),
      (''last_modified_date'', map_option (PStr \<circ> date_text) (last_modified_date a)),
      (''naics_code'', map_option PStr (naics_code a)),
      (''ordering'', map_option PStr (award_ordering a)),
      (''page_number'', Some (PInt page_number)),
      (''page_size'', Some (PInt page_size)),
      (''parent_award_id'', map_option PStr (parent_award_id a)),
      (''psc_code'', map_option PStr (psc_code a)),
      (''search_id'', map_option PStr (award_search_id a)),
      (''vehicle_key'', map_option PInt (vehicle_key a))]"

record opportunities_args =
  agency_key :: "int option"
  captured_date :: "str_or_date option"
  opp_key :: "string option"
  ordering :: "string option"
  posted_date :: "str_or_date option"
  search_id :: "string option"
  source_id :: "string option"
  source_type :: "string option"
  version_key :: "string option"

definition opportunities_url :: string where
  "opportunities_url = ''https://www.highergov.com/api-external/opportunity/''"

definition opportunities_params ::
  "string \<Rightarrow> opportunities_args \<Rightarrow> int \<Rightarrow> int \<Rightarrow> (string \<times> pval option) list"
where
  "opportunities_params api_key a page_number page_size =
     [(''api_key'', Some (PStr api_key)),
      (''agency_key'', map_option PInt (agency_key a)),
      (''captured_date'', map_option (PStr \<circ> date_text) (captured_date a)),
      (''opp_key'', map_option PStr (opp_key a)),
      (''ordering'', map_option PStr (ordering a)),
      (''page_number'', Some (PInt page_number)),
      (''page_size'', Some (PInt page_size)),
      (''posted_date'', map_option (PStr \<circ> date_text) (posted_date a)),
      (''search_id'', map_option PStr (search_id a)),
      (''source_id'', map_option PStr (source_id a)),
      (''source_type'', map_option PStr (source_type a)),
      (''version_key'', map_option PStr (version_key a))]"

subsection \<open>\<^verbatim>\<open>highergov_get_all_awards\<close> and \<^verbatim>\<open>highergov_get_all_opportunities\<close>\<close>

text \<open>
  Both functions of \<^verbatim>\<open>testing.py\<close> run the same loop; only the URL and the parameters
  of the request differ:
  \<^verbatim>\<open>
  page_number = 1
  while True:
      params = {...}
      response = requests.get(url, params=params)
      response.raise_for_status()
      data = response.json()
      contracts = data.get('results', [])
      all_contracts.extend(contracts)
      if len(contracts) < page_size:
          break
      page_number += 1
  return all_contracts
  \<close>
  \<open>fetch s page_number\<close> stands for the first five statements of the body. The loop is
  \<^verbatim>\<open>while True\<close>, so it is a partial function: \<open>None\<close> is a run that never leaves
  the loop, \<open>Some (Inl e, s)\<close> a run ended by the exception \<open>e\<close>, and
  \<open>Some (Inr all, s)\<close> a run that returns the list \<open>all\<close>; \<open>s\<close> is the state of the
  world after the last request.
\<close>

partial_function (option) short_page_loop ::
  "('s \<Rightarrow> int \<Rightarrow> (error + 'r list) \<times> 's) \<Rightarrow> int \<Rightarrow> int \<Rightarrow> 'r list \<Rightarrow> 's
     \<Rightarrow> ((error + 'r list) \<times> 's) option"
where
  "short_page_loop fetch page_size page_number all_contracts s =
     (case fetch s page_number of
        (Inl e, s') \<Rightarrow> Some (Inl e, s')
      | (Inr contracts, s') \<Rightarrow>
          if int (length contracts) < page_size
          then Some (Inr (all_contracts @ contracts), s')
          else short_page_loop fetch page_size (page_number + 1) (all_contracts @ contracts) s')"

definition awards_page ::
  "('s, 'r) requests_get \<Rightarrow> string \<Rightarrow> awards_args \<Rightarrow> int \<Rightarrow> 's \<Rightarrow> int \<Rightarrow> (error + 'r list) \<times> 's"
where
  "awards_page requests_get api_key a page_size s page_number =
     (case get_json requests_get awards_url
             (remove_none (awards_params api_key a page_number page_size)) s of
        (Inl e, s') \<Rightarrow> (Inl e, s')
      | (Inr data, s') \<Rightarrow> (Inr (get_results data), s'))"

definition highergov_get_all_awards ::
  "('s, 'r) requests_get \<Rightarrow> string \<Rightarrow> awards_args \<Rightarrow> int \<Rightarrow> 's \<Rightarrow> ((error + 'r list) \<times> 's) option"
where
  "highergov_get_all_awards requests_get api_key a page_size s =
     (if api_key = [] then Some (Inl (ValueError ''API key is required''), s)
      else if page_size > 100 then Some (Inl (ValueError ''page_size cannot exceed 100''), s)
      else short_page_loop (awards_page requests_get api_key a page_size) page_size 1 [] s)"

definition opportunities_page ::
  "('s, 'r) requests_get \<Rightarrow> string \<Rightarrow> opportunities_args \<Rightarrow> int \<Rightarrow> 's \<Rightarrow> int
     \<Rightarrow> (error + 'r list) \<times> 's"
where
  "opportunities_page requests_get api_key a page_size s page_number =
     (case get_json requests_get opportunities_url
             (remove_none (opportunities_params api_key a page_number page_size)) s of
        (Inl e, s') \<Rightarrow> (Inl e, s')
      | (Inr data, s') \<Rightarrow> (Inr (get_results data), s'))"

definition highergov_get_all_opportunities ::
  "('s, 'r) requests_get \<Rightarrow> string \<Rightarrow> opportunities_args \<Rightarrow> int \<Rightarrow> 's
     \<Rightarrow> ((error + 'r list) \<times> 's) option"
where
  "highergov_get_all_opportunities requests_get api_key a page_size s =
     (if api_key = [] then Some (Inl (ValueError ''API key is required''), s)
      else if page_size > 100 then Some (Inl (ValueError ''page_size cannot exceed 100''), s)
      else short_page_loop (opportunities_page requests_get api_key a page_size) page_size 1 [] s)"

subsection \<open>\<^verbatim>\<open>get_all_opportunities_for_searchid\<close> (\<^verbatim>\<open>highergov_api.py\<close>)\<close>

text \<open>
  \<^verbatim>\<open>call_endpoint\<close> prefixes \<^verbatim>\<open>BASE_URL\<close>, removes the \<^verbatim>\<open>None\<close> parameters and returns the
  parsed body; \<^verbatim>\<open>get_opportunities\<close> calls it for the opportunity endpoint.
\<close>

definition BASE_URL :: string where
  "BASE_URL = ''https://www.highergov.com''"

definition call_endpoint ::
  "('s, 'r) requests_get \<Rightarrow> string \<Rightarrow> (string \<times> pval option) list \<Rightarrow> 's \<Rightarrow> (error + 'r body) \<times> 's"
where
  "call_endpoint requests_get endpoint params s =
     get_json requests_get (BASE_URL @ endpoint) (remove_none params) s"

definition get_opportunities ::
  "('s, 'r) requests_get \<Rightarrow> string \<Rightarrow> opportunities_args \<Rightarrow> int \<Rightarrow> int \<Rightarrow> 's
     \<Rightarrow> (error + 'r body) \<times> 's"
where
  "get_opportunities requests_get api_key a page_number page_size s =
     call_endpoint requests_get ''/api-external/opportunity/''
       (opportunities_params api_key a page_number page_size) s"

text \<open>
  The arguments \<^verbatim>\<open>get_all_opportunities_for_searchid\<close> passes on: the search id, every
  other filter at its default \<^verbatim>\<open>None\<close>.
\<close>

definition searchid_args :: "string \<Rightarrow> opportunities_args" where
  "searchid_args sid =
     \<lparr>agency_key = None, captured_date = None, opp_key = None, ordering = None,
      posted_date = None, search_id = Some sid, source_id = None, source_type = None,
      version_key = None\<rparr>"

text \<open>
  \<^verbatim>\<open>
  while True:
      resp = get_opportunities(...)
      results = resp.get("results", [])
      if not results:
          break
      all_opportunities.extend(results)
      next_link = resp.get("links", {}).get("next")
      if not next_link or page_number >= max_page_number:
          break
      page_number += 1
  return all_opportunities
  \<close>
  \<^verbatim>\<open>not next_link\<close> holds for a missing link and for the empty string.
\<close>

definition no_next_link :: "'r body \<Rightarrow> bool" where
  "no_next_link resp = (case links_next resp of None \<Rightarrow> True | Some l \<Rightarrow> l = [])"

partial_function (option) searchid_loop ::
  "('s \<Rightarrow> int \<Rightarrow> (error + 'r body) \<times> 's) \<Rightarrow> int \<Rightarrow> int \<Rightarrow> 'r list \<Rightarrow> 's
     \<Rightarrow> ((error + 'r list) \<times> 's) option"
where
  "searchid_loop fetch max_page_number page_number all_opportunities s =
     (case fetch s page_number of
        (Inl e, s') \<Rightarrow> Some (Inl e, s')
      | (Inr resp, s') \<Rightarrow>
          if get_results resp = [] then Some (Inr all_opportunities, s')
          else if no_next_link resp \<or> page_number \<ge> max_page_number
          then Some (Inr (all_opportunities @ get_results resp), s')
          else searchid_loop fetch max_page_number (page_number + 1)
                 (all_opportunities @ get_results resp) s')"

definition get_all_opportunities_for_searchid ::
  "('s, 'r) requests_get \<Rightarrow> string \<Rightarrow> string \<Rightarrow> int \<Rightarrow> int \<Rightarrow> 's
     \<Rightarrow> ((error + 'r list) \<times> 's) option"
where
  "get_all_opportunities_for_searchid requests_get api_key sid max_page_number page_size s =
     searchid_loop
       (\<lambda>s page_number.
          get_opportunities requests_get api_key (searchid_args sid) page_number page_size s)
       max_page_number 1 [] s"

section \<open>The record store (\<^verbatim>\<open>award_table_filter.py\<close>, \<^verbatim>\<open>table_filter_Lawrence.py\<close>)\<close>

subsection \<open>Queries\<close>

text \<open>
  A query is what the builder calls on \<^verbatim>\<open>supabase.from_(table).select(columns)\<close> have
  accumulated when \<^verbatim>\<open>execute()\<close> sends it: the filter clauses in the order of the calls,
  and the row range. The clause constructors are the builder's methods \<^verbatim>\<open>eq\<close>,
  \<^verbatim>\<open>gt\<close>, \<^verbatim>\<open>gte\<close>, \<^verbatim>\<open>lte\<close>, \<^verbatim>\<open>neq\<close>, \<^verbatim>\<open>in_\<close>, \<^verbatim>\<open>or_\<close> (whose argument is a
  string in the store's own filter syntax) and \<^verbatim>\<open>text_search\<close> (always called with
  the options \<^verbatim>\<open>{'config': 'english', 'type': 'websearch'}\<close>), and the three further
  calls of \<^verbatim>\<open>get_filtered_opportunities\<close>: \<^verbatim>\<open>not_.in_\<close>, \<^verbatim>\<open>or_\<close> with a list of
  conditions, and \<^verbatim>\<open>order(column, desc=...)\<close>, which selects no row but is recorded
  where it is called.
\<close>

datatype val = VStr string | VInt int | VNum real | VBool bool

datatype clause =
    FEq string val
  | FGt string val
  | FGte string val
  | FLte string val
  | FNeq string val
  | FIn string "val list"
  | FOr string
  | FTextSearch string string
  | FNotIn string "val list"
  | FOrList "string list"
  | FOrder string bool

record query =
  table :: string
  columns :: string
  clauses :: "clause list"
  row_range :: "(int \<times> int) option"

text \<open>
  A row is a JSON object: field names with their values. A column that is NULL is a
  field without an entry, which is how \<^verbatim>\<open>org.get(...)\<close> sees it.
  \<^verbatim>\<open>execute()\<close> raises or gives \<^verbatim>\<open>result.data\<close>, a list of rows.
\<close>

type_synonym row = "(string \<times> val) list"

type_synonym 's client = "'s \<Rightarrow> query \<Rightarrow> (error + row list) \<times> 's"

text \<open>
  The column a clause constrains, for statements about what a query says of one column.
  An \<^verbatim>\<open>or_\<close> group names its columns inside its text and an \<^verbatim>\<open>order\<close> call constrains
  none.
\<close>

fun clause_column :: "clause \<Rightarrow> string option" where
  "clause_column (FEq column v) = Some column"
| "clause_column (FGt column v) = Some column"
| "clause_column (FGte column v) = Some column"
| "clause_column (FLte column v) = Some column"
| "clause_column (FNeq column v) = Some column"
| "clause_column (FIn column vs) = Some column"
| "clause_column (FOr condition) = None"
| "clause_column (FTextSearch column q) = Some column"
| "clause_column (FNotIn column vs) = Some column"
| "clause_column (FOrList conditions) = None"
| "clause_column (FOrder column desc) = None"

text \<open>Python's truth value of a value, of an optional list and of an optional string.\<close>

fun truthy :: "val \<Rightarrow> bool" where
  "truthy (VStr s) = (s \<noteq> [])"
| "truthy (VInt i) = (i \<noteq> 0)"
| "truthy (VNum x) = (x \<noteq> 0)"
| "truthy (VBool b) = b"

fun list_of :: "'a list option \<Rightarrow> 'a list" where
  "list_of None = []"
| "list_of (Some xs) = xs"

text \<open>\<^verbatim>\<open>",".join(xs)\<close>\<close>

fun join :: "string \<Rightarrow> string list \<Rightarrow> string" where
  "join sep [] = []"
| "join sep [x] = x"
| "join sep (x # y # ys) = x @ sep @ join sep (y # ys)"

text \<open>
  The two blocks the filter functions repeat for each pair of lists:
  \<^verbatim>\<open>
  if aq.INCLUDE_NAICS:
      query = query.in_("naics", aq.INCLUDE_NAICS)
  if aq.EXCLUDE_NAICS:
      for code in aq.EXCLUDE_NAICS:
          query = query.neq("naics", code)
  \<close>
  \<^verbatim>\<open>if xs:\<close> is false for \<^verbatim>\<open>None\<close> and for the empty list.
\<close>

definition include_clause :: "string \<Rightarrow> val list \<Rightarrow> clause list" where
  "include_clause column vs = (if vs \<noteq> [] then [FIn column vs] else [])"

definition exclude_clauses :: "string \<Rightarrow> val list \<Rightarrow> clause list" where
  "exclude_clauses column vs = (if vs \<noteq> [] then map (FNeq column) vs else [])"

subsection \<open>\<^verbatim>\<open>get_filtered_awards\<close>\<close>

record AwardsQuery =
  INCLUDE_RECIPIENT_UEI :: "string list option"
  EXCLUDE_RECIPIENT_UEI :: "string list option"
  POTENTIAL_END_DATE_START :: "string option"
  POTENTIAL_END_DATE_END :: "string option"
  INCLUDE_NAICS :: "string list option"
  EXCLUDE_NAICS :: "string list option"
  INCLUDE_PSC :: "string list option"
  EXCLUDE_PSC :: "string list option"
  INCLUDE_SET_ASIDE_IDS :: "string list option"
  EXCLUDE_SET_ASIDE_IDS :: "string list option"
  INCLUDE_ORGANIZATION_KEYS :: "string list option"
  EXCLUDE_ORGANIZATION_KEYS :: "string list option"
  INCLUDE_EXTENT_COMPETED :: "string list option"
  EXCLUDE_EXTENT_COMPETED :: "string list option"
  AMOUNT_OBLIGATED_MINIMUM :: "real option"
  AMOUNT_OBLIGATED_MAXIMUM :: "real option"
  KEYWORD_QUERY :: "string option"

text \<open>
  The lookup that precedes the loop, once for the include keys and once for the exclude
  keys:
  \<^verbatim>\<open>
  fpds_codes_include = []
  if aq.INCLUDE_ORGANIZATION_KEYS:
      org_res = supabase.from_("organizations").select("fpds_code")
                  .in_("organization_key", aq.INCLUDE_ORGANIZATION_KEYS).execute()
      if org_res.data:
          fpds_codes_include = [org["fpds_code"] for org in org_res.data if org.get("fpds_code")]
  \<close>
\<close>

definition fpds_codes_of :: "row list \<Rightarrow> val list" where
  "fpds_codes_of data =
     List.map_filter
       (\<lambda>org. case map_of org ''fpds_code'' of
                 None \<Rightarrow> None
               | Some v \<Rightarrow> if truthy v then Some v else None)
       data"

definition organizations_query :: "string list \<Rightarrow> query" where
  "organizations_query keys =
     \<lparr>table = ''organizations'', columns = ''fpds_code'',
      clauses = [FIn ''organization_key'' (map VStr keys)], row_range = None\<rparr>"

definition resolve_fpds_codes ::
  "'s client \<Rightarrow> string list option \<Rightarrow> 's \<Rightarrow> (error + val list) \<times> 's"
where
  "resolve_fpds_codes client keys s =
     (if list_of keys \<noteq> [] then
        (case client s (organizations_query (list_of keys)) of
           (Inl e, s') \<Rightarrow> (Inl e, s')
         | (Inr data, s') \<Rightarrow> (Inr (if data \<noteq> [] then fpds_codes_of data else []), s'))
      else (Inr [], s))"

text \<open>
  The clauses one pass through the loop body adds before \<^verbatim>\<open>range\<close>, block by block in
  the order of the source (lines 60 to 124), then the query with the range and, after it,
  the text search (lines 126 to 130).
\<close>

definition awards_clauses :: "AwardsQuery \<Rightarrow> val list \<Rightarrow> val list \<Rightarrow> clause list" where
  "awards_clauses aq fpds_codes_include fpds_codes_exclude =
     (if list_of (INCLUDE_RECIPIENT_UEI aq) \<noteq> [] then
        [FOr (''recipient_uei.in.('' @ join '','' (list_of (INCLUDE_RECIPIENT_UEI aq))
              @ ''),parent_recipient_uei.in.('' @ join '','' (list_of (INCLUDE_RECIPIENT_UEI aq))
              @ '')'')]
      else [])
     @ (if list_of (EXCLUDE_RECIPIENT_UEI aq) \<noteq> [] then
          concat (map (\<lambda>uei. [FNeq ''recipient_uei'' (VStr uei),
                               FNeq ''parent_recipient_uei'' (VStr uei)])
                      (list_of (EXCLUDE_RECIPIENT_UEI aq)))
        else [])
     @ (case POTENTIAL_END_DATE_START aq of
          None \<Rightarrow> []
        | Some d \<Rightarrow> if d \<noteq> [] then [FGte ''period_of_performance_potential_end_date'' (VStr d)]
                    else [])
     @ (case POTENTIAL_END_DATE_END aq of
          None \<Rightarrow> []
        | Some d \<Rightarrow> if d \<noteq> [] then [FLte ''period_of_performance_potential_end_date'' (VStr d)]
                    else [])
     @ include_clause ''naics'' (map VStr (list_of (INCLUDE_NAICS aq)))
     @ exclude_clauses ''naics'' (map VStr (list_of (EXCLUDE_NAICS aq)))
     @ include_clause ''product_or_service_code'' (map VStr (list_of (INCLUDE_PSC aq)))
     @ exclude_clauses ''product_or_service_code'' (map VStr (list_of (EXCLUDE_PSC aq)))
     @ include_clause ''type_set_aside'' (map VStr (list_of (INCLUDE_SET_ASIDE_IDS aq)))
     @ exclude_clauses ''type_set_aside'' (map VStr (list_of (EXCLUDE_SET_ASIDE_IDS aq)))
     @ include_clause ''funding_agency_subtier_agency_code'' fpds_codes_include
     @ exclude_clauses ''funding_agency_subtier_agency_code'' fpds_codes_exclude
     @ include_clause ''extent_competed_description''
         (map VStr (list_of (INCLUDE_EXTENT_COMPETED aq)))
     @ exclude_clauses ''extent_competed_description''
         (map VStr (list_of (EXCLUDE_EXTENT_COMPETED aq)))
     @ (case AMOUNT_OBLIGATED_MINIMUM aq of
          None \<Rightarrow> []
        | Some x \<Rightarrow> [FGte ''total_obligation'' (VNum x)])
     @ (case AMOUNT_OBLIGATED_MAXIMUM aq of
          None \<Rightarrow> []
        | Some x \<Rightarrow> [FLte ''total_obligation'' (VNum x)])"

definition keyword_clause :: "string \<Rightarrow> string option \<Rightarrow> clause list" where
  "keyword_clause column kw =
     (case kw of None \<Rightarrow> [] | Some k \<Rightarrow> if k \<noteq> [] then [FTextSearch column k] else [])"

definition awards_query :: "AwardsQuery \<Rightarrow> val list \<Rightarrow> val list \<Rightarrow> int \<Rightarrow> int \<Rightarrow> query" where
  "awards_query aq fpds_codes_include fpds_codes_exclude offset limit =
     \<lparr>table = ''awards'', columns = ''*'',
      clauses = awards_clauses aq fpds_codes_include fpds_codes_exclude
                @ keyword_clause ''description'' (KEYWORD_QUERY aq),
      row_range = Some (offset, offset + limit - 1)\<rparr>"



text \<open>
  The loop of the store-style fetchers (\<^verbatim>\<open>get_filtered_awards\<close> in both files of
  \<^verbatim>\<open>award_table\<close>, \<^verbatim>\<open>get_filtered_notices\<close>, \<^verbatim>\<open>test2.py\<close>):
  \<^verbatim>\<open>
  while True:
      query = ...
      query = query.range(offset, offset + limit - 1)
      result = query.execute()
      if not result.data:
          break
      all_awards.extend(result.data)
      offset += limit
  return all_awards
  \<close>
  \<open>fetch s offset\<close> stands for building and executing the query of one pass.
\<close>

partial_function (option) empty_page_loop ::
  "('s \<Rightarrow> int \<Rightarrow> (error + 'r list) \<times> 's) \<Rightarrow> int \<Rightarrow> int \<Rightarrow> 'r list \<Rightarrow> 's
     \<Rightarrow> ((error + 'r list) \<times> 's) option"
where
  "empty_page_loop fetch limit offset all_awards s =
     (case fetch s offset of
        (Inl e, s') \<Rightarrow> Some (Inl e, s')
      | (Inr data, s') \<Rightarrow>
          if data = [] then Some (Inr all_awards, s')
          else empty_page_loop fetch limit (offset + limit) (all_awards @ data) s')"

definition get_filtered_awards ::
  "'s client \<Rightarrow> AwardsQuery \<Rightarrow> 's \<Rightarrow> ((error + row list) \<times> 's) option"
where
  "get_filtered_awards client aq s =
     (case resolve_fpds_codes client (INCLUDE_ORGANIZATION_KEYS aq) s of
        (Inl e, s1) \<Rightarrow> Some (Inl e, s1)
      | (Inr fpds_codes_include, s1) \<Rightarrow>
          (case resolve_fpds_codes client (EXCLUDE_ORGANIZATION_KEYS aq) s1 of
             (Inl e, s2) \<Rightarrow> Some (Inl e, s2)
           | (Inr fpds_codes_exclude, s2) \<Rightarrow>
               empty_page_loop
                 (\<lambda>s offset. client s
                    (awards_query aq fpds_codes_include fpds_codes_exclude offset 1000))
                 1000 0 [] s2))"

subsection \<open>\<^verbatim>\<open>get_filtered_notices\<close> and \<^verbatim>\<open>test2.py\<close>\<close>

record notices_args =
  active :: bool
  include_naics :: "string list option"
  exclude_naics :: "string list option"
  include_solicitation_types :: "string list option"
  exclude_solicitation_types :: "string list option"
  include_psc :: "string list option"
  exclude_psc :: "string list option"
  include_set_aside_ids :: "string list option"
  exclude_set_aside_ids :: "string list option"
  include_organization_keys :: "string list option"
  exclude_organization_keys :: "string list option"
  keyword_query :: "string option"

text \<open>
  \<^verbatim>\<open>[int(x) for x in xs]\<close>: the conversions run from left to right and the first string
  that is not a number raises \<^verbatim>\<open>ValueError\<close>. Python's \<^verbatim>\<open>int\<close> on a string and
  \<^verbatim>\<open>str\<close> on an integer (inside the f-strings) are parameters \<open>py_int\<close> and
  \<open>py_str\<close>; \<open>py_int x = None\<close> where \<^verbatim>\<open>int(x)\<close> raises.
\<close>

fun to_ints :: "(string \<Rightarrow> int option) \<Rightarrow> string list \<Rightarrow> error + int list" where
  "to_ints py_int [] = Inr []"
| "to_ints py_int (x # xs) =
     (case py_int x of
        None \<Rightarrow> Inl (ValueError x)
      | Some i \<Rightarrow> (case to_ints py_int xs of Inl e \<Rightarrow> Inl e | Inr ns \<Rightarrow> Inr (i # ns)))"

text \<open>
  The text sent as the column list: the \<^verbatim>\<open>select\<close> string of lines 35 to 51 without its
  white space.
\<close>

definition notices_select :: string where
  "notices_select =
     ''*,naics_details:naics!naics_id(*),psc_details:psc!psc_id(*),''
     @ ''setasides_details:setasides!set_aside_id(*),''
     @ ''solicitations_details:solicitations!solicitation_id(*),''
     @ ''addresses_details:addresses!organization_address_key(*),''
     @ ''organization_details:organizations!Notices_organization_key_fkey(*),''
     @ ''organization_level_1_details:organizations!Notices_organization_level_1_key_fkey(*),''
     @ ''organization_level_2_details:organizations!Notices_organization_level_2_key_fkey(*),''
     @ ''organization_level_3_details:organizations!Notices_organization_level_3_key_fkey(*),''
     @ ''organization_level_4_details:organizations!Notices_organization_level_4_key_fkey(*),''
     @ ''organization_level_5_details:organizations!Notices_organization_level_5_key_fkey(*),''
     @ ''organization_level_6_details:organizations!Notices_organization_level_6_key_fkey(*),''
     @ ''organization_level_7_details:organizations!Notices_organization_level_7_key_fkey(*),''
     @ ''solicitation_type_details:solicitation_types!type(*)''"

text \<open>The eight conditions lines 98 to 106 append for one organization key.\<close>

definition organization_conditions :: "string \<Rightarrow> string list" where
  "organization_conditions key =
     [''organization_key.eq.'' @ key,
      ''organization_level_1_key.eq.'' @ key,
      ''organization_level_2_key.eq.'' @ key,
      ''organization_level_3_key.eq.'' @ key,
      ''organization_level_4_key.eq.'' @ key,
      ''organization_level_5_key.eq.'' @ key,
      ''organization_level_6_key.eq.'' @ key,
      ''organization_level_7_key.eq.'' @ key]"

text \<open>
  The clauses of one pass through the loop body (lines 53 to 115), or the
  \<^verbatim>\<open>ValueError\<close> of the first conversion that fails. The conversions stand in the order
  of the source; each is guarded there by \<^verbatim>\<open>if xs:\<close>, and converting the empty list
  raises nothing. \<open>now\<close> is the clock reading of this pass. After the first pass the
  four lists hold integers, on which \<^verbatim>\<open>int\<close> is the identity, so every pass builds the
  same clauses apart from \<open>now\<close>.
\<close>

definition notices_clauses ::
  "(string \<Rightarrow> int option) \<Rightarrow> (int \<Rightarrow> string) \<Rightarrow> string \<Rightarrow> notices_args \<Rightarrow> error + clause list"
where
  "notices_clauses py_int py_str now a =
     (case to_ints py_int (list_of (include_set_aside_ids a)) of
        Inl e \<Rightarrow> Inl e
      | Inr include_ids \<Rightarrow>
     (case to_ints py_int (list_of (exclude_set_aside_ids a)) of
        Inl e \<Rightarrow> Inl e
      | Inr exclude_ids \<Rightarrow>
     (case to_ints py_int (list_of (include_organization_keys a)) of
        Inl e \<Rightarrow> Inl e
      | Inr include_keys \<Rightarrow>
     (case to_ints py_int (list_of (exclude_organization_keys a)) of
        Inl e \<Rightarrow> Inl e
      | Inr exclude_keys \<Rightarrow>
          Inr ((if active a
                then [FEq ''latest'' (VBool True), FGt ''solicitation_response_deadline'' (VStr now)]
                else [])
               @ include_clause ''naics'' (map VStr (list_of (include_naics a)))
               @ exclude_clauses ''naics'' (map VStr (list_of (exclude_naics a)))
               @ include_clause ''type'' (map VStr (list_of (include_solicitation_types a)))
               @ exclude_clauses ''type'' (map VStr (list_of (exclude_solicitation_types a)))
               @ include_clause ''psc'' (map VStr (list_of (include_psc a)))
               @ exclude_clauses ''psc'' (map VStr (list_of (exclude_psc a)))
               @ include_clause ''set_aside_id'' (map VInt include_ids)
               @ exclude_clauses ''set_aside_id'' (map VInt exclude_ids)
               @ (if include_keys \<noteq> []
                  then [FOr (join '','' (concat (map (organization_conditions \<circ> py_str)
                                                     include_keys)))]
                  else [])
               @ exclude_clauses ''organization_key'' (map VInt exclude_keys))))))"

definition notices_page ::
  "'s client \<Rightarrow> ('s \<Rightarrow> string) \<Rightarrow> (string \<Rightarrow> int option) \<Rightarrow> (int \<Rightarrow> string) \<Rightarrow> notices_args
     \<Rightarrow> int \<Rightarrow> 's \<Rightarrow> int \<Rightarrow> (error + row list) \<times> 's"
where
  "notices_page client clock py_int py_str a limit s offset =
     (case notices_clauses py_int py_str (clock s) a of
        Inl e \<Rightarrow> (Inl e, s)
      | Inr cs \<Rightarrow>
          client s
            \<lparr>table = ''notices'', columns = notices_select,
             clauses = cs @ keyword_clause ''opportunity_text'' (keyword_query a),
             row_range = Some (offset, offset + limit - 1)\<rparr>)"

definition get_filtered_notices ::
  "'s client \<Rightarrow> ('s \<Rightarrow> string) \<Rightarrow> (string \<Rightarrow> int option) \<Rightarrow> (int \<Rightarrow> string) \<Rightarrow> notices_args
     \<Rightarrow> 's \<Rightarrow> ((error + row list) \<times> 's) option"
where
  "get_filtered_notices client clock py_int py_str a s =
     empty_page_loop (notices_page client clock py_int py_str a 1000) 1000 0 [] s"

text \<open>The script \<^verbatim>\<open>test2.py\<close>: every row of \<^verbatim>\<open>notices\<close>, no filter.\<close>

definition test2_all_data :: "'s client \<Rightarrow> 's \<Rightarrow> ((error + row list) \<times> 's) option" where
  "test2_all_data client s =
     empty_page_loop
       (\<lambda>s offset. client s \<lparr>table = ''notices'', columns = ''*'', clauses = [],
                               row_range = Some (offset, offset + 1000 - 1)\<rparr>)
       1000 0 [] s"

subsection \<open>\<^verbatim>\<open>get_filtered_opportunities\<close> (\<^verbatim>\<open>testing.py\<close>)\<close>





















section \<open>Backing systems whose data does not change\<close>

text \<open>
  The API and the record store are external collaborators, not code of the repository; the
  functions above take them as parameters. A statement that a fetch is complete is about
  a backing system that holds a fixed data set and answers every request from it. The
  definitions of this section are such systems: the data is a parameter that no request
  can change, and the state of the world, whatever it is, is returned as it was.
\<close>

text \<open>
  Modelled from the spec: the paginated HTTP API (section 6: filtering by query
  parameters, page-number/page-size pagination, a JSON body with a \<^verbatim>\<open>results\<close> list and
  an optional \<^verbatim>\<open>links.next\<close>), whose code is not in the repository. The API holds the
  list \<open>rows\<close> of the records that match the filter parameters, in its natural order,
  and serves page \<open>page_number\<close> (counted from 1) of \<open>page_size\<close> records;
  \<^verbatim>\<open>links.next\<close> is present while records remain.
\<close>

definition static_api :: "'r list \<Rightarrow> ('s, 'r) requests_get" where
  "static_api rows s url params =
     (case (map_of params ''page_number'', map_of params ''page_size'') of
        (Some (PInt n), Some (PInt p)) \<Rightarrow>
          (Inr \<lparr>status_code = 200,
                json = Some \<lparr>results = Some (take (nat p) (drop (nat ((n - 1) * p)) rows)),
                              links_next = (if nat (n * p) < length rows then Some ''next''
                                            else None)\<rparr>\<rparr>,
           s)
      | _ \<Rightarrow> (Inr \<lparr>status_code = 400, json = None\<rparr>, s))"

text \<open>
  Modelled from the spec: how the record store, whose code is not in the repository,
  evaluates one clause on one row (section 4.1). Inclusion is "value is one of set S",
  exclusion is "value is not equal to" the element, and a comparison with a NULL column
  is never true (the three-valued logic of the store), so a single NOT-IN is not true
  of a NULL column either. An \<^verbatim>\<open>order\<close> call selects no row. The remaining clauses
  (ordering comparisons, the \<^verbatim>\<open>or_\<close> conditions, full-text search) are decided by a
  parameter \<open>other\<close>.
\<close>

fun satisfies :: "(clause \<Rightarrow> row \<Rightarrow> bool) \<Rightarrow> row \<Rightarrow> clause \<Rightarrow> bool" where
  "satisfies other r (FIn column vs) =
     (case map_of r column of None \<Rightarrow> False | Some v \<Rightarrow> v \<in> set vs)"
| "satisfies other r (FNeq column v) =
     (case map_of r column of None \<Rightarrow> False | Some x \<Rightarrow> x \<noteq> v)"
| "satisfies other r (FEq column v) = (map_of r column = Some v)"
| "satisfies other r (FNotIn column vs) =
     (case map_of r column of None \<Rightarrow> False | Some v \<Rightarrow> v \<notin> set vs)"
| "satisfies other r (FOrder column desc) = True"
| "satisfies other r c = other c r"

text \<open>
  Modelled from the spec: the record store's answer to a query (section 6: predicates
  combined by AND, range-based pagination). The store holds, for each table, a list of
  rows in its natural order. A query is answered with the rows of its table that satisfy
  every clause, cut to the row range \<open>(lo, hi)\<close>, both bounds included.
\<close>

definition matching_rows ::
  "(clause \<Rightarrow> row \<Rightarrow> bool) \<Rightarrow> clause list \<Rightarrow> row list \<Rightarrow> row list"
where
  "matching_rows other cs rows = filter (\<lambda>r. list_all (satisfies other r) cs) rows"

definition static_store ::
  "(clause \<Rightarrow> row \<Rightarrow> bool) \<Rightarrow> (string \<Rightarrow> row list) \<Rightarrow> 's client"
where
  "static_store other db s q =
     (Inr (case row_range q of
             None \<Rightarrow> matching_rows other (clauses q) (db (table q))
           | Some (lo, hi) \<Rightarrow>
               take (nat (hi + 1 - lo))
                 (drop (nat lo) (matching_rows other (clauses q) (db (table q))))),
      s)"



text \<open>
  Against such a store the lookup of \<^verbatim>\<open>get_filtered_awards\<close> resolves a list of
  organization keys to the truthy \<^verbatim>\<open>fpds_code\<close> values of the rows of \<^verbatim>\<open>organizations\<close>
  whose \<^verbatim>\<open>organization_key\<close> is in the list.
\<close>

definition resolved_codes ::
  "(clause \<Rightarrow> row \<Rightarrow> bool) \<Rightarrow> (string \<Rightarrow> row list) \<Rightarrow> string list option \<Rightarrow> val list"
where
  "resolved_codes other db keys =
     fpds_codes_of
       (matching_rows other [FIn ''organization_key'' (map VStr (list_of keys))]
          (db ''organizations''))"

text \<open>
  A store with the same data that counts the requests made to it: its state is their
  number.
\<close>

definition counting_store ::
  "(clause \<Rightarrow> row \<Rightarrow> bool) \<Rightarrow> (string \<Rightarrow> row list) \<Rightarrow> nat client"
where
  "counting_store other db n q = (fst (static_store other db () q), n + 1)"

section \<open>Default arguments and two failing backing systems\<close>

text \<open>
  The values the source gives to arguments that are left out: every optional argument of
  the two API functions and every field of the dataclass \<^verbatim>\<open>AwardsQuery\<close> defaults to
  \<^verbatim>\<open>None\<close>.
\<close>

definition default_awards_args :: awards_args where
  "default_awards_args =
     \<lparr>award_id = None, awardee_key = None, awardee_key_parent = None, awardee_uei = None,
      awardee_uei_parent = None, awarding_agency_key = None, funding_agency_key = None,
      last_modified_date = None, naics_code = None, award_ordering = None,
      parent_award_id = None, psc_code = None, award_search_id = None, vehicle_key = None\<rparr>"

definition default_opportunities_args :: opportunities_args where
  "default_opportunities_args =
     \<lparr>agency_key = None, captured_date = None, opp_key = None, ordering = None,
      posted_date = None, search_id = None, source_id = None, source_type = None,
      version_key = None\<rparr>"

definition default_AwardsQuery :: AwardsQuery where
  "default_AwardsQuery =
     \<lparr>INCLUDE_RECIPIENT_UEI = None, EXCLUDE_RECIPIENT_UEI = None,
      POTENTIAL_END_DATE_START = None, POTENTIAL_END_DATE_END = None,
      INCLUDE_NAICS = None, EXCLUDE_NAICS = None, INCLUDE_PSC = None, EXCLUDE_PSC = None,
      INCLUDE_SET_ASIDE_IDS = None, EXCLUDE_SET_ASIDE_IDS = None,
      INCLUDE_ORGANIZATION_KEYS = None, EXCLUDE_ORGANIZATION_KEYS = None,
      INCLUDE_EXTENT_COMPETED = None, EXCLUDE_EXTENT_COMPETED = None,
      AMOUNT_OBLIGATED_MINIMUM = None, AMOUNT_OBLIGATED_MAXIMUM = None,
      KEYWORD_QUERY = None\<rparr>"

text \<open>
  The defaults of \<^verbatim>\<open>get_filtered_notices\<close>: \<^verbatim>\<open>active\<close> defaults to \<^verbatim>\<open>True\<close>, every other
  argument to \<^verbatim>\<open>None\<close>.
\<close>

definition default_notices_args :: notices_args where
  "default_notices_args =
     \<lparr>active = True, include_naics = None, exclude_naics = None,
      include_solicitation_types = None, exclude_solicitation_types = None,
      include_psc = None, exclude_psc = None, include_set_aside_ids = None,
      exclude_set_aside_ids = None, include_organization_keys = None,
      exclude_organization_keys = None, keyword_query = None\<rparr>"



text \<open>
  Three awards and four organizations for the examples: two organizations share one
  \<^verbatim>\<open>fpds_code\<close>, the third has none, and the last award names no agency.
\<close>

definition example_organizations :: "string \<Rightarrow> row list" where
  "example_organizations t =
     (if t = ''awards''
      then [[(''piid'', VStr ''A1''), (''funding_agency_subtier_agency_code'', VStr ''97AS'')],
            [(''piid'', VStr ''A2''), (''funding_agency_subtier_agency_code'', VStr ''1700'')],
            [(''piid'', VStr ''A3'')]]
      else if t = ''organizations''
      then [[(''organization_key'', VStr ''K1''), (''fpds_code'', VStr ''97AS'')],
            [(''organization_key'', VStr ''K2''), (''fpds_code'', VStr ''97AS'')],
            [(''organization_key'', VStr ''K3'')],
            [(''organization_key'', VStr ''K4''), (''fpds_code'', VStr ''1700'')]]
      else [])"






section \<open>Runs of the three loops\<close>

text \<open>
  The definitions of this section are not code of the repository; they describe the runs
  of the loops so that the theorems can speak about them. \<open>full_pages fetch page_size
  page_number k acc s\<close> is the accumulator and the state after \<open>k\<close> passes of the
  short-page loop, each of which fetched a page without an error and of at least
  \<open>page_size\<close> records (so the loop went on); it is \<open>None\<close> when one of these \<open>k\<close>
  pages failed or was short. \<open>last_page\<close> is the outcome of a pass that ends the loop:
  the exception of a failed request, or the result when the page is short.
\<close>

fun full_pages ::
  "('s \<Rightarrow> int \<Rightarrow> (error + 'r list) \<times> 's) \<Rightarrow> int \<Rightarrow> int \<Rightarrow> nat \<Rightarrow> 'r list \<Rightarrow> 's
     \<Rightarrow> ('r list \<times> 's) option"
where
  "full_pages fetch page_size page_number 0 acc s = Some (acc, s)"
| "full_pages fetch page_size page_number (Suc k) acc s =
     (case fetch s page_number of
        (Inl e, s') \<Rightarrow> None
      | (Inr contracts, s') \<Rightarrow>
          if int (length contracts) < page_size then None
          else full_pages fetch page_size (page_number + 1) k (acc @ contracts) s')"

definition last_page ::
  "('s \<Rightarrow> int \<Rightarrow> (error + 'r list) \<times> 's) \<Rightarrow> int \<Rightarrow> int \<Rightarrow> 'r list \<Rightarrow> 's
     \<Rightarrow> ((error + 'r list) \<times> 's) option"
where
  "last_page fetch page_size page_number acc s =
     (case fetch s page_number of
        (Inl e, s') \<Rightarrow> Some (Inl e, s')
      | (Inr contracts, s') \<Rightarrow>
          if int (length contracts) < page_size then Some (Inr (acc @ contracts), s') else None)"

text \<open>
  The same for the empty-page loop: \<open>nonempty_pages\<close> are \<open>k\<close> passes that each
  fetched at least one row, \<open>last_range\<close> is a pass that fails or fetches no row.
\<close>

fun nonempty_pages ::
  "('s \<Rightarrow> int \<Rightarrow> (error + 'r list) \<times> 's) \<Rightarrow> int \<Rightarrow> int \<Rightarrow> nat \<Rightarrow> 'r list \<Rightarrow> 's
     \<Rightarrow> ('r list \<times> 's) option"
where
  "nonempty_pages fetch limit offset 0 acc s = Some (acc, s)"
| "nonempty_pages fetch limit offset (Suc k) acc s =
     (case fetch s offset of
        (Inl e, s') \<Rightarrow> None
      | (Inr data, s') \<Rightarrow>
          if data = [] then None
          else nonempty_pages fetch limit (offset + limit) k (acc @ data) s')"

definition last_range ::
  "('s \<Rightarrow> int \<Rightarrow> (error + 'r list) \<times> 's) \<Rightarrow> int \<Rightarrow> 'r list \<Rightarrow> 's
     \<Rightarrow> ((error + 'r list) \<times> 's) option"
where
  "last_range fetch offset acc s =
     (case fetch s offset of
        (Inl e, s') \<Rightarrow> Some (Inl e, s')
      | (Inr data, s') \<Rightarrow> if data = [] then Some (Inr acc, s') else None)"

text \<open>
  And for the loop of \<^verbatim>\<open>get_all_opportunities_for_searchid\<close>: \<open>continued_pages\<close> are
  \<open>k\<close> passes whose page had results and a next link while the page number was below
  \<open>max_page_number\<close>; \<open>last_searchid_page\<close> is a pass that ends the loop.
\<close>

fun continued_pages ::
  "('s \<Rightarrow> int \<Rightarrow> (error + 'r body) \<times> 's) \<Rightarrow> int \<Rightarrow> int \<Rightarrow> nat \<Rightarrow> 'r list \<Rightarrow> 's
     \<Rightarrow> ('r list \<times> 's) option"
where
  "continued_pages fetch max_page_number page_number 0 acc s = Some (acc, s)"
| "continued_pages fetch max_page_number page_number (Suc k) acc s =
     (case fetch s page_number of
        (Inl e, s') \<Rightarrow> None
      | (Inr resp, s') \<Rightarrow>
          if get_results resp = [] \<or> no_next_link resp \<or> page_number \<ge> max_page_number
          then None
          else continued_pages fetch max_page_number (page_number + 1) k
                 (acc @ get_results resp) s')"

definition last_searchid_page ::
  "('s \<Rightarrow> int \<Rightarrow> (error + 'r body) \<times> 's) \<Rightarrow> int \<Rightarrow> int \<Rightarrow> 'r list \<Rightarrow> 's
     \<Rightarrow> ((error + 'r list) \<times> 's) option"
where
  "last_searchid_page fetch max_page_number page_number acc s =
     (case fetch s page_number of
        (Inl e, s') \<Rightarrow> Some (Inl e, s')
      | (Inr resp, s') \<Rightarrow>
          if get_results resp = [] then Some (Inr acc, s')
          else if no_next_link resp \<or> page_number \<ge> max_page_number
          then Some (Inr (acc @ get_results resp), s')
          else None)"

section \<open>Facts about \<open>find_match\<close>\<close>

lemma find_match_iff: "find_match r B \<longleftrightarrow> (\<exists>b\<in>set B. r \<inter> b \<noteq> {})"
  by (induction B) auto

lemma find_match_empty_set: "\<not> find_match {} B"
  by (simp add: find_match_iff)

lemma find_match_self: "r \<in> set A \<Longrightarrow> r \<noteq> {} \<Longrightarrow> find_match r A"
  unfolding find_match_iff by (rule bexI [of _ r]) auto

section \<open>Facts about the loops and the filters\<close>

subsection \<open>The short-page loop\<close>

lemma short_page_loop_stops:
  "full_pages fetch ps n k acc s = Some (acc', s') \<Longrightarrow>
   last_page fetch ps (n + int k) acc' s' = Some y \<Longrightarrow>
   short_page_loop fetch ps n acc s = Some y"
proof (induction k arbitrary: n acc s)
  case 0
  then show ?case
    by (subst short_page_loop.simps)
       (auto simp: last_page_def split: prod.splits sum.splits if_splits)
next
  case (Suc k)
  obtain r s1 where f: "fetch s n = (r, s1)" by (cases "fetch s n")
  from Suc.prems(1) f obtain xs where r: "r = Inr xs" and full: "\<not> int (length xs) < ps"
    and rest: "full_pages fetch ps (n + 1) k (acc @ xs) s1 = Some (acc', s')"
    by (auto split: sum.splits if_splits)
  from Suc.prems(2) have "last_page fetch ps (n + 1 + int k) acc' s' = Some y"
    by (simp add: add.assoc)
  from Suc.IH [OF rest this] show ?case
    using f r full by (subst short_page_loop.simps) simp
qed

lemma short_page_loop_returns:
  assumes "short_page_loop fetch ps n acc s = Some y"
  shows "\<exists>k acc' s'. full_pages fetch ps n k acc s = Some (acc', s')
      \<and> last_page fetch ps (n + int k) acc' s' = Some y"
  using assms
proof (induct rule: short_page_loop.raw_induct [rotated 1, consumes 1, case_names step])
  case (step loop fetch ps n acc s y)
  note IH = step(1) and body = step(2)
  obtain r s1 where f: "fetch s n = (r, s1)" by (cases "fetch s n")
  have zero: "full_pages fetch ps n 0 acc s = Some (acc, s)" by simp
  show ?case
  proof (cases r)
    case (Inl e)
    with body f have "last_page fetch ps (n + int 0) acc s = Some y"
      by (auto simp: last_page_def)
    with zero show ?thesis by blast
  next
    case (Inr xs)
    show ?thesis
    proof (cases "int (length xs) < ps")
      case True
      with body f Inr have "last_page fetch ps (n + int 0) acc s = Some y"
        by (auto simp: last_page_def)
      with zero show ?thesis by blast
    next
      case False
      with body f Inr have "loop fetch ps (n + 1) (acc @ xs) s1 = Some y" by simp
      from IH [OF this] obtain k acc' s' where
        k: "full_pages fetch ps (n + 1) k (acc @ xs) s1 = Some (acc', s')"
        and l: "last_page fetch ps (n + 1 + int k) acc' s' = Some y" by blast
      from k f Inr False have "full_pages fetch ps n (Suc k) acc s = Some (acc', s')" by simp
      moreover from l have "last_page fetch ps (n + int (Suc k)) acc' s' = Some y"
        by (simp add: add.assoc)
      ultimately show ?thesis by blast
    qed
  qed
qed

lemma short_page_loop_Some_iff:
  "short_page_loop fetch ps n acc s = Some y \<longleftrightarrow>
   (\<exists>k acc' s'. full_pages fetch ps n k acc s = Some (acc', s')
      \<and> last_page fetch ps (n + int k) acc' s' = Some y)"
proof
  assume "short_page_loop fetch ps n acc s = Some y"
  then show "\<exists>k acc' s'. full_pages fetch ps n k acc s = Some (acc', s')
      \<and> last_page fetch ps (n + int k) acc' s' = Some y"
    by (rule short_page_loop_returns)
next
  assume "\<exists>k acc' s'. full_pages fetch ps n k acc s = Some (acc', s')
      \<and> last_page fetch ps (n + int k) acc' s' = Some y"
  then show "short_page_loop fetch ps n acc s = Some y"
    by (auto intro: short_page_loop_stops)
qed

lemma short_page_loop_terminates:
  assumes "n \<le> m" and "\<forall>s. \<exists>xs s'. fetch s m = (Inr xs, s') \<and> int (length xs) < ps"
  shows "\<exists>y. short_page_loop fetch ps n acc s = Some y"
  using assms(1)
proof (induction "nat (m - n)" arbitrary: n acc s)
  case 0
  then have "n = m" by simp
  moreover obtain xs s' where "fetch s m = (Inr xs, s')" "int (length xs) < ps"
    using assms(2) by blast
  ultimately show ?case
    by (subst short_page_loop.simps) simp
next
  case (Suc d)
  then have le: "n + 1 \<le> m" and d: "d = nat (m - (n + 1))" by linarith+
  obtain r s1 where f: "fetch s n = (r, s1)" by (cases "fetch s n")
  show ?case
  proof (cases r)
    case (Inl e)
    with f show ?thesis by (subst short_page_loop.simps) simp
  next
    case (Inr xs)
    from Suc.hyps(1) [OF d le, of "acc @ xs" s1] f Inr show ?thesis
      by (subst short_page_loop.simps) simp
  qed
qed

lemma short_page_loop_never_returns:
  assumes "ps \<le> 0" and "short_page_loop fetch ps n acc s = Some y"
  shows "\<exists>e sf. y = (Inl e, sf)"
  using assms(2,1)
proof (induct rule: short_page_loop.raw_induct [rotated 1, consumes 1, case_names step])
  case (step loop fetch ps n acc s y)
  obtain r s1 where f: "fetch s n = (r, s1)" by (cases "fetch s n")
  show ?case
  proof (cases r)
    case (Inl e)
    with step(2) f show ?thesis by auto
  next
    case (Inr xs)
    from step(3) have "\<not> int (length xs) < ps" by simp
    with step(2) f Inr have "loop fetch ps (n + 1) (acc @ xs) s1 = Some y" by simp
    from step(1) [OF this step(3)] show ?thesis .
  qed
qed

lemma short_page_loop_diverges:
  assumes "ps \<le> 0" and ok: "\<forall>s n. \<exists>xs s'. fetch s n = (Inr xs, s')"
  shows "short_page_loop fetch ps n acc s = None"
proof (rule ccontr)
  assume "short_page_loop fetch ps n acc s \<noteq> None"
  then obtain y where y: "short_page_loop fetch ps n acc s = Some y" by blast
  from short_page_loop_returns [OF y] obtain k acc' s' where
    "last_page fetch ps (n + int k) acc' s' = Some y" by blast
  moreover from short_page_loop_never_returns [OF assms(1) y] obtain e sf where "y = (Inl e, sf)"
    by blast
  moreover obtain xs s'' where "fetch s' (n + int k) = (Inr xs, s'')" using ok by blast
  ultimately show False
    by (auto simp: last_page_def split: if_splits)
qed

lemma map_of_remove_none:
  "distinct (map fst kvs) \<Longrightarrow>
   map_of (remove_none kvs) k = (case map_of kvs k of None \<Rightarrow> None | Some v \<Rightarrow> v)"
proof (induction kvs)
  case Nil
  show ?case by (simp add: remove_none_def)
next
  case (Cons kv kvs)
  obtain k' v where kv: "kv = (k', v)" by (cases kv)
  from Cons.prems kv have notin: "k' \<notin> fst ` set kvs" and d: "distinct (map fst kvs)"
    by auto
  have rest: "map_of (remove_none kvs) k = (case map_of kvs k of None \<Rightarrow> None | Some v \<Rightarrow> v)"
    by (rule Cons.IH [OF d])
  have none: "k = k' \<Longrightarrow> map_of kvs k = None"
    using notin by (simp add: map_of_eq_None_iff)
  show ?case
    using rest none unfolding kv
    by (cases v) (auto simp: remove_none_def)
qed

lemma awards_page_static:
  "awards_page (static_api rows) key a ps s n
     = (Inr (take (nat ps) (drop (nat ((n - 1) * ps)) rows)), s)"
proof -
  have d: "distinct (map fst (awards_params key a n ps))"
    by (simp add: awards_params_def)
  have "map_of (remove_none (awards_params key a n ps)) ''page_number'' = Some (PInt n)"
    by (simp add: map_of_remove_none [OF d]) (simp add: awards_params_def)
  moreover have "map_of (remove_none (awards_params key a n ps)) ''page_size'' = Some (PInt ps)"
    by (simp add: map_of_remove_none [OF d]) (simp add: awards_params_def)
  ultimately show ?thesis
    by (simp add: awards_page_def get_json_def static_api_def raise_for_status_def
        get_results_def)
qed

lemma short_page_loop_static:
  assumes ps: "1 \<le> ps"
    and pages: "\<And>n. fetch s n = (Inr (take (nat ps) (drop (nat ((n - 1) * ps)) rows)), s)"
  shows "short_page_loop fetch ps (int j + 1) acc s
           = Some (Inr (acc @ drop (j * nat ps) rows), s)"
proof (induction "length rows - j * nat ps" arbitrary: j acc rule: less_induct)
  case less
  have idx: "nat ((int j + 1 - 1) * ps) = j * nat ps"
    using ps by (simp add: nat_mult_distrib)
  let ?page = "take (nat ps) (drop (j * nat ps) rows)"
  have f: "fetch s (int j + 1) = (Inr ?page, s)"
    using pages [of "int j + 1"] idx by simp
  show ?case
  proof (cases "int (length ?page) < ps")
    case True
    then have "length rows - j * nat ps < nat ps" using ps by auto
    then have "?page = drop (j * nat ps) rows" by simp
    with True f show ?thesis
      by (subst short_page_loop.simps) simp
  next
    case False
    then have ge: "nat ps \<le> length rows - j * nat ps" using ps by auto
    then have "length rows - Suc j * nat ps < length rows - j * nat ps"
      using ps by simp
    from less [OF this, of "acc @ ?page"]
    have "short_page_loop fetch ps (int j + 1 + 1) (acc @ ?page) s
            = Some (Inr (acc @ ?page @ drop (Suc j * nat ps) rows), s)"
      by (simp add: add.commute)
    moreover have "?page @ drop (Suc j * nat ps) rows = drop (j * nat ps) rows"
      by (metis add.commute append_take_drop_id drop_drop mult_Suc)
    ultimately show ?thesis
      using False f by (subst short_page_loop.simps) simp
  qed
qed

subsection \<open>The empty-page loop\<close>

lemma empty_page_loop_stops:
  "nonempty_pages fetch lmt off k acc s = Some (acc', s') \<Longrightarrow>
   last_range fetch (off + int k * lmt) acc' s' = Some y \<Longrightarrow>
   empty_page_loop fetch lmt off acc s = Some y"
proof (induction k arbitrary: off acc s)
  case 0
  then show ?case
    by (subst empty_page_loop.simps)
       (auto simp: last_range_def split: prod.splits sum.splits if_splits)
next
  case (Suc k)
  obtain r s1 where f: "fetch s off = (r, s1)" by (cases "fetch s off")
  from Suc.prems(1) f obtain xs where r: "r = Inr xs" and full: "xs \<noteq> []"
    and rest: "nonempty_pages fetch lmt (off + lmt) k (acc @ xs) s1 = Some (acc', s')"
    by (auto split: sum.splits if_splits)
  from Suc.prems(2) have "last_range fetch (off + lmt + int k * lmt) acc' s' = Some y"
    by (simp add: algebra_simps)
  from Suc.IH [OF rest this] show ?case
    using f r full by (subst empty_page_loop.simps) simp
qed

lemma empty_page_loop_returns:
  assumes "empty_page_loop fetch lmt off acc s = Some y"
  shows "\<exists>k acc' s'. nonempty_pages fetch lmt off k acc s = Some (acc', s')
      \<and> last_range fetch (off + int k * lmt) acc' s' = Some y"
  using assms
proof (induct rule: empty_page_loop.raw_induct [rotated 1, consumes 1, case_names step])
  case (step loop fetch lmt off acc s y)
  note IH = step(1) and body = step(2)
  obtain r s1 where f: "fetch s off = (r, s1)" by (cases "fetch s off")
  have zero: "nonempty_pages fetch lmt off 0 acc s = Some (acc, s)" by simp
  show ?case
  proof (cases r)
    case (Inl e)
    with body f have "last_range fetch (off + int 0 * lmt) acc s = Some y"
      by (auto simp: last_range_def)
    with zero show ?thesis by blast
  next
    case (Inr xs)
    show ?thesis
    proof (cases "xs = []")
      case True
      with body f Inr have "last_range fetch (off + int 0 * lmt) acc s = Some y"
        by (auto simp: last_range_def)
      with zero show ?thesis by blast
    next
      case False
      with body f Inr have "loop fetch lmt (off + lmt) (acc @ xs) s1 = Some y" by simp
      from IH [OF this] obtain k acc' s' where
        k: "nonempty_pages fetch lmt (off + lmt) k (acc @ xs) s1 = Some (acc', s')"
        and l: "last_range fetch (off + lmt + int k * lmt) acc' s' = Some y" by blast
      from k f Inr False have "nonempty_pages fetch lmt off (Suc k) acc s = Some (acc', s')"
        by simp
      moreover from l have "last_range fetch (off + int (Suc k) * lmt) acc' s' = Some y"
        by (simp add: algebra_simps)
      ultimately show ?thesis by blast
    qed
  qed
qed

lemma empty_page_loop_static:
  assumes lmt: "1 \<le> lmt"
    and pages: "\<And>off. 0 \<le> off \<Longrightarrow>
       fetch s off = (Inr (take (nat lmt) (drop (nat off) rows)), s)"
  shows "empty_page_loop fetch lmt (int j * lmt) acc s
           = Some (Inr (acc @ drop (j * nat lmt) rows), s)"
proof (induction "length rows - j * nat lmt" arbitrary: j acc rule: less_induct)
  case less
  have idx: "nat (int j * lmt) = j * nat lmt"
    using lmt by (simp add: nat_mult_distrib)
  let ?page = "take (nat lmt) (drop (j * nat lmt) rows)"
  have f: "fetch s (int j * lmt) = (Inr ?page, s)"
    using pages [of "int j * lmt"] idx lmt by simp
  show ?case
  proof (cases "?page = []")
    case True
    then have "drop (j * nat lmt) rows = []" using lmt by auto
    with True f show ?thesis
      by (subst empty_page_loop.simps) simp
  next
    case False
    then have "j * nat lmt < length rows" by auto
    then have "length rows - Suc j * nat lmt < length rows - j * nat lmt"
      using lmt by simp
    from less [OF this, of "acc @ ?page"]
    have "empty_page_loop fetch lmt (int j * lmt + lmt) (acc @ ?page) s
            = Some (Inr (acc @ ?page @ drop (Suc j * nat lmt) rows), s)"
      by (simp add: algebra_simps)
    moreover have "?page @ drop (Suc j * nat lmt) rows = drop (j * nat lmt) rows"
      by (metis add.commute append_take_drop_id drop_drop mult_Suc)
    ultimately show ?thesis
      using False f by (subst empty_page_loop.simps) simp
  qed
qed

subsection \<open>The loop with a next link and a page cap, and the static store\<close>

lemma searchid_loop_stops:
  "continued_pages fetch mx n k acc s = Some (acc', s') \<Longrightarrow>
   last_searchid_page fetch mx (n + int k) acc' s' = Some y \<Longrightarrow>
   searchid_loop fetch mx n acc s = Some y"
proof (induction k arbitrary: n acc s)
  case 0
  then show ?case
    by (subst searchid_loop.simps)
       (auto simp: last_searchid_page_def split: prod.splits sum.splits if_splits)
next
  case (Suc k)
  obtain r s1 where f: "fetch s n = (r, s1)" by (cases "fetch s n")
  from Suc.prems(1) f obtain resp where r: "r = Inr resp"
    and go: "get_results resp \<noteq> []" "\<not> no_next_link resp" "\<not> n \<ge> mx"
    and rest: "continued_pages fetch mx (n + 1) k (acc @ get_results resp) s1 = Some (acc', s')"
    by (auto split: sum.splits if_splits)
  from Suc.prems(2) have "last_searchid_page fetch mx (n + 1 + int k) acc' s' = Some y"
    by (simp add: add.assoc)
  from Suc.IH [OF rest this] show ?case
    using f r go by (subst searchid_loop.simps) simp
qed

lemma searchid_loop_returns:
  assumes "searchid_loop fetch mx n acc s = Some y"
  shows "\<exists>k acc' s'. continued_pages fetch mx n k acc s = Some (acc', s')
      \<and> last_searchid_page fetch mx (n + int k) acc' s' = Some y"
  using assms
proof (induct rule: searchid_loop.raw_induct [rotated 1, consumes 1, case_names step])
  case (step loop fetch mx n acc s y)
  note IH = step(1) and body = step(2)
  obtain r s1 where f: "fetch s n = (r, s1)" by (cases "fetch s n")
  have zero: "continued_pages fetch mx n 0 acc s = Some (acc, s)" by simp
  show ?case
  proof (cases r)
    case (Inl e)
    with body f have "last_searchid_page fetch mx (n + int 0) acc s = Some y"
      by (auto simp: last_searchid_page_def)
    with zero show ?thesis by blast
  next
    case (Inr resp)
    show ?thesis
    proof (cases "get_results resp = [] \<or> no_next_link resp \<or> n \<ge> mx")
      case True
      with body f Inr have "last_searchid_page fetch mx (n + int 0) acc s = Some y"
        by (auto simp: last_searchid_page_def)
      with zero show ?thesis by blast
    next
      case False
      with body f Inr have "loop fetch mx (n + 1) (acc @ get_results resp) s1 = Some y"
        by simp
      from IH [OF this] obtain k acc' s' where
        k: "continued_pages fetch mx (n + 1) k (acc @ get_results resp) s1 = Some (acc', s')"
        and l: "last_searchid_page fetch mx (n + 1 + int k) acc' s' = Some y" by blast
      from k f Inr False have "continued_pages fetch mx n (Suc k) acc s = Some (acc', s')"
        by simp
      moreover from l have "last_searchid_page fetch mx (n + int (Suc k)) acc' s' = Some y"
        by (simp add: add.assoc)
      ultimately show ?thesis by blast
    qed
  qed
qed

lemma resolve_fpds_codes_static:
  "\<exists>codes. resolve_fpds_codes (static_store other db) keys s = (Inr codes, s)"
  by (simp add: resolve_fpds_codes_def static_store_def)

lemma get_filtered_awards_static:
  assumes i: "resolve_fpds_codes (static_store other db) (INCLUDE_ORGANIZATION_KEYS aq) s
                = (Inr fi, s)"
    and e: "resolve_fpds_codes (static_store other db) (EXCLUDE_ORGANIZATION_KEYS aq) s
                = (Inr fe, s)"
  shows "get_filtered_awards (static_store other db) aq s
           = Some (Inr (matching_rows other
                          (awards_clauses aq fi fe @ keyword_clause ''description'' (KEYWORD_QUERY aq))
                          (db ''awards'')), s)"
proof -
  let ?rows = "matching_rows other
      (awards_clauses aq fi fe @ keyword_clause ''description'' (KEYWORD_QUERY aq)) (db ''awards'')"
  let ?fetch = "\<lambda>s offset. static_store other db s (awards_query aq fi fe offset 1000)"
  have "empty_page_loop ?fetch 1000 (int 0 * 1000) [] s
          = Some (Inr ([] @ drop (0 * nat 1000) ?rows), s)"
    by (rule empty_page_loop_static) (simp_all add: awards_query_def static_store_def)
  then show ?thesis
    by (simp add: get_filtered_awards_def i e)
qed

subsection \<open>Pages of the static API, failing pages, normal returns\<close>

lemma opportunities_params_page:
  "map_of (remove_none (opportunities_params key a n ps)) ''page_number'' = Some (PInt n)"
  "map_of (remove_none (opportunities_params key a n ps)) ''page_size'' = Some (PInt ps)"
proof -
  have d: "distinct (map fst (opportunities_params key a n ps))"
    by (simp add: opportunities_params_def)
  show "map_of (remove_none (opportunities_params key a n ps)) ''page_number'' = Some (PInt n)"
    by (simp add: map_of_remove_none [OF d]) (simp add: opportunities_params_def)
  show "map_of (remove_none (opportunities_params key a n ps)) ''page_size'' = Some (PInt ps)"
    by (simp add: map_of_remove_none [OF d]) (simp add: opportunities_params_def)
qed

lemma opportunities_page_static:
  "opportunities_page (static_api rows) key a ps s n
     = (Inr (take (nat ps) (drop (nat ((n - 1) * ps)) rows)), s)"
  by (simp add: opportunities_page_def get_json_def static_api_def raise_for_status_def
      get_results_def opportunities_params_page)

lemma short_page_loop_terminates_from_1:
  assumes "1 \<le> m" and "\<forall>s. \<exists>xs s'. fetch s m = (Inr xs, s') \<and> int (length xs) < ps"
  shows "\<exists>y. short_page_loop fetch ps 1 [] s = Some y"
  using assms by (rule short_page_loop_terminates)






lemma last_page_Inr_iff:
  "last_page fetch ps n acc s = Some (Inr res, sf) \<longleftrightarrow>
   (\<exists>page. fetch s n = (Inr page, sf) \<and> int (length page) < ps \<and> res = acc @ page)"
proof (cases "fetch s n")
  case (Pair r s1)
  then show ?thesis
    by (cases r) (auto simp: last_page_def)
qed

lemma last_range_Inr_iff:
  "last_range fetch off acc s = Some (Inr res, sf) \<longleftrightarrow>
   (fetch s off = (Inr [], sf) \<and> res = acc)"
proof (cases "fetch s off")
  case (Pair r s1)
  then show ?thesis
    by (cases r) (auto simp: last_range_def)
qed

lemma last_searchid_page_Inr_iff:
  "last_searchid_page fetch mx n acc s = Some (Inr res, sf) \<longleftrightarrow>
   (\<exists>resp. fetch s n = (Inr resp, sf)
      \<and> (if get_results resp = [] then res = acc
          else (no_next_link resp \<or> mx \<le> n) \<and> res = acc @ get_results resp))"
proof (cases "fetch s n")
  case (Pair r s1)
  then show ?thesis
    by (cases r) (auto simp: last_searchid_page_def)
qed

lemma short_page_loop_returns_iff:
  "short_page_loop fetch ps n acc s = Some (Inr res, sf) \<longleftrightarrow>
   (\<exists>k acc' s' page. full_pages fetch ps n k acc s = Some (acc', s')
      \<and> fetch s' (n + int k) = (Inr page, sf) \<and> int (length page) < ps \<and> res = acc' @ page)"
  unfolding short_page_loop_Some_iff last_page_Inr_iff by blast

lemma empty_page_loop_Some_iff:
  "empty_page_loop fetch lmt off acc s = Some y \<longleftrightarrow>
   (\<exists>k acc' s'. nonempty_pages fetch lmt off k acc s = Some (acc', s')
      \<and> last_range fetch (off + int k * lmt) acc' s' = Some y)"
proof
  assume "empty_page_loop fetch lmt off acc s = Some y"
  then show "\<exists>k acc' s'. nonempty_pages fetch lmt off k acc s = Some (acc', s')
      \<and> last_range fetch (off + int k * lmt) acc' s' = Some y"
    by (rule empty_page_loop_returns)
next
  assume "\<exists>k acc' s'. nonempty_pages fetch lmt off k acc s = Some (acc', s')
      \<and> last_range fetch (off + int k * lmt) acc' s' = Some y"
  then show "empty_page_loop fetch lmt off acc s = Some y"
    by (auto intro: empty_page_loop_stops)
qed

lemma empty_page_loop_returns_iff:
  "empty_page_loop fetch lmt off acc s = Some (Inr res, sf) \<longleftrightarrow>
   (\<exists>k s'. nonempty_pages fetch lmt off k acc s = Some (res, s')
      \<and> fetch s' (off + int k * lmt) = (Inr [], sf))"
  unfolding empty_page_loop_Some_iff last_range_Inr_iff by blast

lemma searchid_loop_Some_iff:
  "searchid_loop fetch mx n acc s = Some y \<longleftrightarrow>
   (\<exists>k acc' s'. continued_pages fetch mx n k acc s = Some (acc', s')
      \<and> last_searchid_page fetch mx (n + int k) acc' s' = Some y)"
proof
  assume "searchid_loop fetch mx n acc s = Some y"
  then show "\<exists>k acc' s'. continued_pages fetch mx n k acc s = Some (acc', s')
      \<and> last_searchid_page fetch mx (n + int k) acc' s' = Some y"
    by (rule searchid_loop_returns)
next
  assume "\<exists>k acc' s'. continued_pages fetch mx n k acc s = Some (acc', s')
      \<and> last_searchid_page fetch mx (n + int k) acc' s' = Some y"
  then show "searchid_loop fetch mx n acc s = Some y"
    by (auto intro: searchid_loop_stops)
qed

lemma searchid_loop_returns_iff:
  "searchid_loop fetch mx n acc s = Some (Inr res, sf) \<longleftrightarrow>
   (\<exists>k acc' s' resp. continued_pages fetch mx n k acc s = Some (acc', s')
      \<and> fetch s' (n + int k) = (Inr resp, sf)
      \<and> (if get_results resp = [] then res = acc'
          else (no_next_link resp \<or> mx \<le> n + int k) \<and> res = acc' @ get_results resp))"
  unfolding searchid_loop_Some_iff last_searchid_page_Inr_iff by blast

subsection \<open>Complete fetches from static data, clauses of the filters\<close>

lemma static_api_fetch_all_awards:
  assumes "api_key \<noteq> []" "1 \<le> P" "P \<le> 100"
  shows "highergov_get_all_awards (static_api rows) api_key a P s = Some (Inr rows, s)"
proof -
  have "short_page_loop (awards_page (static_api rows) api_key a P) P (int 0 + 1) [] s
          = Some (Inr ([] @ drop (0 * nat P) rows), s)"
    using assms(2) by (rule short_page_loop_static) (rule awards_page_static)
  with assms show ?thesis
    by (simp add: highergov_get_all_awards_def)
qed

lemma static_api_fetch_all_opportunities:
  assumes "api_key \<noteq> []" "1 \<le> P" "P \<le> 100"
  shows "highergov_get_all_opportunities (static_api rows) api_key b P s = Some (Inr rows, s)"
proof -
  have "short_page_loop (opportunities_page (static_api rows) api_key b P) P (int 0 + 1) [] s
          = Some (Inr ([] @ drop (0 * nat P) rows), s)"
    using assms(2) by (rule short_page_loop_static) (rule opportunities_page_static)
  with assms show ?thesis
    by (simp add: highergov_get_all_opportunities_def)
qed

lemma static_store_fetch_all:
  assumes "1 \<le> limit"
  shows "empty_page_loop (\<lambda>s offset. static_store other db s (awards_query aq fi fe offset limit))
           limit 0 [] s
         = Some (Inr (matching_rows other
                        (awards_clauses aq fi fe
                         @ keyword_clause ''description'' (KEYWORD_QUERY aq))
                        (db ''awards'')), s)"
proof -
  let ?rows = "matching_rows other
      (awards_clauses aq fi fe @ keyword_clause ''description'' (KEYWORD_QUERY aq)) (db ''awards'')"
  have "empty_page_loop (\<lambda>s offset. static_store other db s (awards_query aq fi fe offset limit))
          limit (int 0 * limit) [] s
          = Some (Inr ([] @ drop (0 * nat limit) ?rows), s)"
    using assms by (rule empty_page_loop_static) (simp add: awards_query_def static_store_def)
  then show ?thesis by simp
qed

lemma awards_clauses_default [simp]: "awards_clauses default_AwardsQuery [] [] = []"
  by (simp add: awards_clauses_def default_AwardsQuery_def include_clause_def
      exclude_clauses_def)

lemma notices_clauses_default:
  "notices_clauses py_int py_str now default_notices_args
     = Inr [FEq ''latest'' (VBool True), FGt ''solicitation_response_deadline'' (VStr now)]"
  by (simp add: notices_clauses_def default_notices_args_def include_clause_def
      exclude_clauses_def)

lemma notices_clauses_inactive:
  "notices_clauses py_int py_str now (default_notices_args\<lparr>active := False\<rparr>) = Inr []"
  by (simp add: notices_clauses_def default_notices_args_def include_clause_def
      exclude_clauses_def)

lemma matching_rows_no_clause [simp]: "matching_rows other [] rows = rows"
  by (simp add: matching_rows_def)

lemma get_filtered_notices_inactive_static:
  "get_filtered_notices (static_store other db) clock py_int py_str
     (default_notices_args\<lparr>active := False\<rparr>) s = Some (Inr (db ''notices''), s)"
proof -
  let ?a = "default_notices_args\<lparr>active := False\<rparr>"
  have kw: "keyword_query ?a = None" by (simp add: default_notices_args_def)
  have "empty_page_loop (notices_page (static_store other db) clock py_int py_str ?a 1000)
          1000 (int 0 * 1000) [] s
          = Some (Inr ([] @ drop (0 * nat 1000) (db ''notices'')), s)"
    by (rule empty_page_loop_static)
       (simp_all add: notices_page_def notices_clauses_inactive kw keyword_clause_def
          static_store_def)
  then show ?thesis
    by (simp add: get_filtered_notices_def)
qed

lemma get_filtered_awards_default_static:
  "get_filtered_awards (static_store other db) default_AwardsQuery s
     = Some (Inr (db ''awards''), s)"
proof -
  have i: "resolve_fpds_codes (static_store other db)
             (INCLUDE_ORGANIZATION_KEYS default_AwardsQuery) s = (Inr [], s)"
    by (simp add: resolve_fpds_codes_def default_AwardsQuery_def)
  have e: "resolve_fpds_codes (static_store other db)
             (EXCLUDE_ORGANIZATION_KEYS default_AwardsQuery) s = (Inr [], s)"
    by (simp add: resolve_fpds_codes_def default_AwardsQuery_def)
  have "KEYWORD_QUERY default_AwardsQuery = None" by (simp add: default_AwardsQuery_def)
  then show ?thesis
    by (simp add: get_filtered_awards_static [OF i e] keyword_clause_def)
qed






lemma exclude_clauses_Nil [simp]: "exclude_clauses column [] = []"
  by (simp add: exclude_clauses_def)









lemma awards_query_ignores_organization_keys:
  "awards_query (aq\<lparr>INCLUDE_ORGANIZATION_KEYS := ks\<rparr>) fi fe offset limit
     = awards_query aq fi fe offset limit"
  "awards_query (aq\<lparr>EXCLUDE_ORGANIZATION_KEYS := ks\<rparr>) fi fe offset limit
     = awards_query aq fi fe offset limit"
  by (simp_all add: awards_query_def awards_clauses_def)

subsection \<open>The clauses a query holds on one column\<close>

lemma filter_uei_exclusions:
  "filter (\<lambda>c. clause_column c = Some col)
     (concat (map (\<lambda>uei. [FNeq ''recipient_uei'' (VStr uei),
                          FNeq ''parent_recipient_uei'' (VStr uei)]) E))
   = (if col = ''recipient_uei'' then map (\<lambda>e. FNeq ''recipient_uei'' (VStr e)) E
      else if col = ''parent_recipient_uei''
      then map (\<lambda>e. FNeq ''parent_recipient_uei'' (VStr e)) E
      else [])"
  by (induction E) auto

lemma filter_case_option_Nil:
  "(\<And>d. filter P (g d) = []) \<Longrightarrow> filter P (case x of None \<Rightarrow> [] | Some d \<Rightarrow> g d) = []"
  by (cases x) simp_all

lemma filter_include_clause:
  "filter (\<lambda>c. clause_column c = Some col) (include_clause column vs)
     = (if column = col \<and> vs \<noteq> [] then [FIn column vs] else [])"
  by (simp add: include_clause_def)

lemma filter_exclude_clauses:
  "filter (\<lambda>c. clause_column c = Some col) (exclude_clauses column vs)
     = (if column = col then map (FNeq column) vs else [])"
  by (simp add: exclude_clauses_def)

lemma organization_clauses_of_awards_query:
  "filter (\<lambda>c. clause_column c = Some ''funding_agency_subtier_agency_code'')
     (clauses (awards_query aq fi fe offset limit))
   = (if fi = [] then [] else [FIn ''funding_agency_subtier_agency_code'' fi])
     @ map (FNeq ''funding_agency_subtier_agency_code'') fe"
  by (simp add: awards_query_def awards_clauses_def keyword_clause_def filter_uei_exclusions
      filter_case_option_Nil filter_include_clause filter_exclude_clauses)






subsection \<open>The lookup of organization keys and the static store\<close>

lemma fpds_codes_of_Nil [simp]: "fpds_codes_of [] = []"
  by (simp add: fpds_codes_of_def List.map_filter_simps)

lemma matching_rows_empty_inclusion [simp]: "matching_rows other [FIn column []] rows = []"
  by (simp add: matching_rows_def split: option.splits)

lemma resolve_fpds_codes_static_value:
  "resolve_fpds_codes (static_store other db) keys s = (Inr (resolved_codes other db keys), s)"
  by (simp add: resolve_fpds_codes_def resolved_codes_def static_store_def
      organizations_query_def)

lemma get_filtered_awards_static_value:
  "get_filtered_awards (static_store other db) aq s
     = Some (Inr (matching_rows other
                    (awards_clauses aq (resolved_codes other db (INCLUDE_ORGANIZATION_KEYS aq))
                                       (resolved_codes other db (EXCLUDE_ORGANIZATION_KEYS aq))
                     @ keyword_clause ''description'' (KEYWORD_QUERY aq))
                    (db ''awards'')), s)"
  by (rule get_filtered_awards_static) (rule resolve_fpds_codes_static_value)+

lemma unresolved_lookup:
  assumes "list_of keys \<noteq> []" "client s (organizations_query (list_of keys)) = (Inr data, s')"
    "fpds_codes_of data = []"
  shows "resolve_fpds_codes client keys s = (Inr [], s')"
  using assms by (simp add: resolve_fpds_codes_def)

lemma resolve_fpds_codes_None [simp]: "resolve_fpds_codes client None s = (Inr [], s)"
  by (simp add: resolve_fpds_codes_def)

lemma include_unresolved_fetch:
  assumes "resolve_fpds_codes client (INCLUDE_ORGANIZATION_KEYS aq) s = (Inr [], s')"
  shows "get_filtered_awards client aq s
           = (case resolve_fpds_codes client (EXCLUDE_ORGANIZATION_KEYS aq) s' of
                (Inl e, sb) \<Rightarrow> Some (Inl e, sb)
              | (Inr fe, sb) \<Rightarrow>
                  empty_page_loop (\<lambda>s offset. client s (awards_query aq [] fe offset 1000))
                    1000 0 [] sb)"
    and "get_filtered_awards client aq s
           = get_filtered_awards client (aq\<lparr>INCLUDE_ORGANIZATION_KEYS := None\<rparr>) s'"
  using assms
  by (simp_all add: get_filtered_awards_def awards_query_ignores_organization_keys
      split: prod.splits sum.splits)

lemma exclude_unresolved_fetch:
  assumes "resolve_fpds_codes client (INCLUDE_ORGANIZATION_KEYS aq) s = (Inr fi, sa)"
    and "resolve_fpds_codes client (EXCLUDE_ORGANIZATION_KEYS aq) sa = (Inr [], sb)"
  shows "get_filtered_awards client aq s
           = empty_page_loop (\<lambda>s offset. client s (awards_query aq fi [] offset 1000))
               1000 0 [] sb"
    and "get_filtered_awards client (aq\<lparr>EXCLUDE_ORGANIZATION_KEYS := None\<rparr>) s
           = empty_page_loop (\<lambda>s offset. client s (awards_query aq fi [] offset 1000))
               1000 0 [] sa"
  using assms
  by (simp_all add: get_filtered_awards_def awards_query_ignores_organization_keys)

lemma unresolved_keys_static:
  assumes "fpds_codes_of (matching_rows other [FIn ''organization_key'' (map VStr keys)]
             (db ''organizations'')) = []"
  shows "get_filtered_awards (static_store other db)
           (aq\<lparr>INCLUDE_ORGANIZATION_KEYS := Some keys\<rparr>) s
         = get_filtered_awards (static_store other db)
           (aq\<lparr>INCLUDE_ORGANIZATION_KEYS := None\<rparr>) s"
    and "get_filtered_awards (static_store other db)
           (aq\<lparr>EXCLUDE_ORGANIZATION_KEYS := Some keys\<rparr>) s
         = get_filtered_awards (static_store other db)
           (aq\<lparr>EXCLUDE_ORGANIZATION_KEYS := None\<rparr>) s"
    and "get_filtered_awards (static_store other db)
           (default_AwardsQuery\<lparr>INCLUDE_ORGANIZATION_KEYS := Some keys\<rparr>) s
         = Some (Inr (db ''awards''), s)"
    and "get_filtered_awards (static_store other db)
           (default_AwardsQuery\<lparr>EXCLUDE_ORGANIZATION_KEYS := Some keys\<rparr>) s
         = Some (Inr (db ''awards''), s)"
proof -
  have n: "resolved_codes other db (Some keys) = []" "resolved_codes other db None = []"
    using assms by (simp_all add: resolved_codes_def)
  have a: "\<And>ks fi fe. awards_clauses (aq\<lparr>INCLUDE_ORGANIZATION_KEYS := ks\<rparr>) fi fe
             = awards_clauses aq fi fe"
    "\<And>ks fi fe. awards_clauses (aq\<lparr>EXCLUDE_ORGANIZATION_KEYS := ks\<rparr>) fi fe
             = awards_clauses aq fi fe"
    by (simp_all add: awards_clauses_def)
  show "get_filtered_awards (static_store other db)
           (aq\<lparr>INCLUDE_ORGANIZATION_KEYS := Some keys\<rparr>) s
         = get_filtered_awards (static_store other db)
           (aq\<lparr>INCLUDE_ORGANIZATION_KEYS := None\<rparr>) s"
    by (simp add: get_filtered_awards_static_value n a)
  show "get_filtered_awards (static_store other db)
           (aq\<lparr>EXCLUDE_ORGANIZATION_KEYS := Some keys\<rparr>) s
         = get_filtered_awards (static_store other db)
           (aq\<lparr>EXCLUDE_ORGANIZATION_KEYS := None\<rparr>) s"
    by (simp add: get_filtered_awards_static_value n a)
  have d: "INCLUDE_ORGANIZATION_KEYS default_AwardsQuery = None"
    "EXCLUDE_ORGANIZATION_KEYS default_AwardsQuery = None"
    "KEYWORD_QUERY default_AwardsQuery = None"
    by (simp_all add: default_AwardsQuery_def)
  have c: "\<And>ks. awards_clauses (default_AwardsQuery\<lparr>INCLUDE_ORGANIZATION_KEYS := ks\<rparr>) [] [] = []"
    "\<And>ks. awards_clauses (default_AwardsQuery\<lparr>EXCLUDE_ORGANIZATION_KEYS := ks\<rparr>) [] [] = []"
    by (simp_all add: awards_clauses_def default_AwardsQuery_def include_clause_def)
  show "get_filtered_awards (static_store other db)
           (default_AwardsQuery\<lparr>INCLUDE_ORGANIZATION_KEYS := Some keys\<rparr>) s
         = Some (Inr (db ''awards''), s)"
    by (simp add: get_filtered_awards_static_value n d c keyword_clause_def)
  show "get_filtered_awards (static_store other db)
           (default_AwardsQuery\<lparr>EXCLUDE_ORGANIZATION_KEYS := Some keys\<rparr>) s
         = Some (Inr (db ''awards''), s)"
    by (simp add: get_filtered_awards_static_value n d c keyword_clause_def)
qed

lemma empty_page_loop_two_passes:
  assumes "fetch s off = (Inr rows, sa)" "rows \<noteq> []" "fetch sa (off + lmt) = (Inr [], sb)"
  shows "empty_page_loop fetch lmt off acc s = Some (Inr (acc @ rows), sb)"
  using assms
  by (subst empty_page_loop.simps, simp, subst empty_page_loop.simps, simp)

lemma awards_clauses_default_keys:
  "awards_clauses (default_AwardsQuery\<lparr>INCLUDE_ORGANIZATION_KEYS := ks\<rparr>) [] [] = []"
  "awards_clauses (default_AwardsQuery\<lparr>EXCLUDE_ORGANIZATION_KEYS := ks\<rparr>) [] [] = []"
  by (simp_all add: awards_clauses_def default_AwardsQuery_def include_clause_def)

lemma example_organizations_fetch:
  "get_filtered_awards (counting_store (\<lambda>c r. True) example_organizations)
     default_AwardsQuery n = Some (Inr (example_organizations ''awards''), n + 2)"
proof -
  have d: "INCLUDE_ORGANIZATION_KEYS default_AwardsQuery = None"
    "EXCLUDE_ORGANIZATION_KEYS default_AwardsQuery = None"
    "KEYWORD_QUERY default_AwardsQuery = None"
    by (simp_all add: default_AwardsQuery_def)
  have "empty_page_loop
          (\<lambda>s offset. counting_store (\<lambda>c r. True) example_organizations s
                         (awards_query default_AwardsQuery [] [] offset 1000))
          1000 0 [] n
        = Some (Inr ([] @ example_organizations ''awards''), n + 1 + 1)"
    by (rule empty_page_loop_two_passes)
       (simp_all add: counting_store_def static_store_def awards_query_def d keyword_clause_def
          example_organizations_def)
  then show ?thesis
    by (simp add: get_filtered_awards_def d)
qed














subsection \<open>\<^verbatim>\<open>get_filtered_opportunities\<close>\<close>


















section \<open>Claims about pagination\<close>

text \<open>
  C3, as the spec states it: every loop over page numbers ends exactly when a page has
  fewer records than the page size. \<^verbatim>\<open>get_all_opportunities_for_searchid\<close> is a loop
  over page numbers that does not: with a page size of 2 and \<^verbatim>\<open>max_page_number = 1\<close>,
  against an API holding three records, its only page has two records and a next link,
  which is not fewer than the page size, and the loop ends there with these two records.
\<close>

theorem searchid_stops_on_full_page_counterexample:
  "get_opportunities (static_api [10, 20, 30 :: nat]) ''key'' (searchid_args ''sid'') 1 2 ()
     = (Inr \<lparr>results = Some [10, 20], links_next = Some ''next''\<rparr>, ())
   \<and> \<not> int (length [10, 20 :: nat]) < 2
   \<and> get_all_opportunities_for_searchid (static_api [10, 20, 30 :: nat]) ''key'' ''sid'' 1 2 ()
     = Some (Inr [10, 20], ())"
proof -
  have p: "get_opportunities (static_api [10, 20, 30 :: nat]) ''key'' (searchid_args ''sid'') 1 2 ()
     = (Inr \<lparr>results = Some [10, 20], links_next = Some ''next''\<rparr>, ())"
    by (simp add: get_opportunities_def call_endpoint_def get_json_def static_api_def
        raise_for_status_def opportunities_params_page)
  have "searchid_loop
          (\<lambda>s n. get_opportunities (static_api [10, 20, 30 :: nat]) ''key'' (searchid_args ''sid'')
                    n 2 s) 1 1 [] () = Some (Inr [10, 20], ())"
    by (subst searchid_loop.simps) (simp add: p get_results_def no_next_link_def)
  with p show ?thesis
    by (simp add: get_all_opportunities_for_searchid_def)
qed

text \<open>
  C3, amended. The loops use three termination conditions, not conflated:
  \<^item> the loop of \<^verbatim>\<open>highergov_get_all_awards\<close> and \<^verbatim>\<open>highergov_get_all_opportunities\<close>
    returns exactly when, after some number of pages that each had at least
    \<open>page_size\<close> records, a page has strictly fewer; it returns all records fetched,
    the short page included;
  \<^item> the loop of the store-style fetchers (\<^verbatim>\<open>get_filtered_awards\<close>,
    \<^verbatim>\<open>get_filtered_notices\<close>, \<^verbatim>\<open>test2.py\<close>) returns exactly when, after some number of
    pages with at least one row each, a page has no rows;
  \<^item> the loop of \<^verbatim>\<open>get_all_opportunities_for_searchid\<close> returns exactly at the first
    page that has no results, or has results and either no next link or a page number
    that has reached \<^verbatim>\<open>max_page_number\<close>.
  The remaining conjuncts say which function runs which loop.
\<close>

theorem loops_stop_on_their_own_conditions:
  fixes fetch range_fetch :: "'s \<Rightarrow> int \<Rightarrow> (error + 'r list) \<times> 's"
    and body_fetch :: "'s \<Rightarrow> int \<Rightarrow> (error + 'r body) \<times> 's"
    and requests_get :: "('s, 'r) requests_get"
    and client :: "'s client"
  shows
  "(short_page_loop fetch page_size page_number acc s = Some (Inr res, sf) \<longleftrightarrow>
      (\<exists>k acc' s' page.
          full_pages fetch page_size page_number k acc s = Some (acc', s')
          \<and> fetch s' (page_number + int k) = (Inr page, sf)
          \<and> int (length page) < page_size \<and> res = acc' @ page))
   \<and> (empty_page_loop range_fetch limit offset acc s = Some (Inr res, sf) \<longleftrightarrow>
      (\<exists>k s'.
          nonempty_pages range_fetch limit offset k acc s = Some (res, s')
          \<and> range_fetch s' (offset + int k * limit) = (Inr [], sf)))
   \<and> (searchid_loop body_fetch max_page_number page_number acc s = Some (Inr res, sf) \<longleftrightarrow>
      (\<exists>k acc' s' resp.
          continued_pages body_fetch max_page_number page_number k acc s = Some (acc', s')
          \<and> body_fetch s' (page_number + int k) = (Inr resp, sf)
          \<and> (if get_results resp = [] then res = acc'
              else (no_next_link resp \<or> max_page_number \<le> page_number + int k)
                   \<and> res = acc' @ get_results resp)))
   \<and> (api_key \<noteq> [] \<and> page_size \<le> 100 \<longrightarrow>
        highergov_get_all_awards requests_get api_key a page_size s
          = short_page_loop (awards_page requests_get api_key a page_size) page_size 1 [] s
        \<and> highergov_get_all_opportunities requests_get api_key b page_size s
          = short_page_loop (opportunities_page requests_get api_key b page_size)
              page_size 1 [] s)
   \<and> get_filtered_notices client clock py_int py_str na s
       = empty_page_loop (notices_page client clock py_int py_str na 1000) 1000 0 [] s
   \<and> test2_all_data client s
       = empty_page_loop
           (\<lambda>s offset. client s \<lparr>table = ''notices'', columns = ''*'', clauses = [],
                                   row_range = Some (offset, offset + 1000 - 1)\<rparr>)
           1000 0 [] s
   \<and> (resolve_fpds_codes client (INCLUDE_ORGANIZATION_KEYS aq) s = (Inr fi, ta)
       \<and> resolve_fpds_codes client (EXCLUDE_ORGANIZATION_KEYS aq) ta = (Inr fe, tb) \<longrightarrow>
        get_filtered_awards client aq s
          = empty_page_loop (\<lambda>s offset. client s (awards_query aq fi fe offset 1000))
              1000 0 [] tb)
   \<and> get_all_opportunities_for_searchid requests_get api_key sid max_page_number page_size s
       = searchid_loop
           (\<lambda>s n. get_opportunities requests_get api_key (searchid_args sid) n page_size s)
           max_page_number 1 [] s"
  by (simp add: short_page_loop_returns_iff empty_page_loop_returns_iff
      searchid_loop_returns_iff highergov_get_all_awards_def
      highergov_get_all_opportunities_def get_filtered_notices_def test2_all_data_def
      get_filtered_awards_def get_all_opportunities_for_searchid_def)

theorem loops_stop_on_their_own_conditions_witness:
  "highergov_get_all_awards (static_api [10, 20, 30 :: nat]) ''key'' default_awards_args 2 ()
     = Some (Inr [10, 20, 30], ())
   \<and> test2_all_data (static_store (\<lambda>c r. True) (\<lambda>t. [[(''notice_id'', VStr ''N1'')]])) ()
     = Some (Inr [[(''notice_id'', VStr ''N1'')]], ())
   \<and> get_filtered_awards (static_store (\<lambda>c r. True) (\<lambda>t. [[(''piid'', VStr ''A1'')]]))
       default_AwardsQuery ()
     = Some (Inr [[(''piid'', VStr ''A1'')]], ())
   \<and> get_all_opportunities_for_searchid (static_api [10, 20, 30 :: nat]) ''key'' ''sid'' 5 2 ()
     = Some (Inr [10, 20, 30], ())"
proof -
  let ?f = "awards_page (static_api [10, 20, 30 :: nat]) ''key'' default_awards_args 2"
  let ?g = "\<lambda>(s :: unit) offset.
      static_store (\<lambda>c r. True) (\<lambda>t. [[(''notice_id'', VStr ''N1'')]]) s
        \<lparr>table = ''notices'', columns = ''*'', clauses = [],
         row_range = Some (offset, offset + 1000 - 1)\<rparr>"
  let ?g' = "\<lambda>(s :: unit) offset.
      static_store (\<lambda>c r. True) (\<lambda>t. [[(''piid'', VStr ''A1'')]]) s
        (awards_query default_AwardsQuery [] [] offset 1000)"
  let ?h = "\<lambda>(s :: unit) n.
      get_opportunities (static_api [10, 20, 30 :: nat]) ''key'' (searchid_args ''sid'') n 2 s"
  have f: "\<exists>k acc' s' page. full_pages ?f 2 1 k [] () = Some (acc', s')
      \<and> ?f s' (1 + int k) = (Inr page, ()) \<and> int (length page) < 2
      \<and> [10, 20, 30] = acc' @ page"
    by (rule exI [of _ "Suc 0"]) (simp add: awards_page_static)
  have g: "\<exists>k s'. nonempty_pages ?g 1000 0 k [] () = Some ([[(''notice_id'', VStr ''N1'')]], s')
      \<and> ?g s' (0 + int k * 1000) = (Inr [], ())"
    by (rule exI [of _ "Suc 0"]) (simp add: static_store_def matching_rows_def)
  have kw: "KEYWORD_QUERY default_AwardsQuery = None"
    by (simp add: default_AwardsQuery_def)
  have g': "\<exists>k s'. nonempty_pages ?g' 1000 0 k [] () = Some ([[(''piid'', VStr ''A1'')]], s')
      \<and> ?g' s' (0 + int k * 1000) = (Inr [], ())"
    by (rule exI [of _ "Suc 0"])
       (simp add: static_store_def awards_query_def keyword_clause_def kw)
  have page: "\<And>n. ?h () n
      = (Inr \<lparr>results = Some (take 2 (drop (nat ((n - 1) * 2)) [10, 20, 30])),
               links_next = (if nat (n * 2) < 3 then Some ''next'' else None)\<rparr>, ())"
    by (simp add: get_opportunities_def call_endpoint_def get_json_def static_api_def
        raise_for_status_def opportunities_params_page)
  have h: "\<exists>k acc' s' resp. continued_pages ?h 5 1 k [] () = Some (acc', s')
      \<and> ?h s' (1 + int k) = (Inr resp, ())
      \<and> (if get_results resp = [] then [10, 20, 30] = acc'
          else (no_next_link resp \<or> 5 \<le> 1 + int k) \<and> [10, 20, 30] = acc' @ get_results resp)"
    by (rule exI [of _ "Suc 0"]) (simp add: page get_results_def no_next_link_def)
  have r: "resolve_fpds_codes (static_store (\<lambda>c r. True) (\<lambda>t. [[(''piid'', VStr ''A1'')]]))
             (INCLUDE_ORGANIZATION_KEYS default_AwardsQuery) () = (Inr [], ())"
      "resolve_fpds_codes (static_store (\<lambda>c r. True) (\<lambda>t. [[(''piid'', VStr ''A1'')]]))
             (EXCLUDE_ORGANIZATION_KEYS default_AwardsQuery) () = (Inr [], ())"
    by (simp_all add: resolve_fpds_codes_def default_AwardsQuery_def)
  note cond = loops_stop_on_their_own_conditions
  have "short_page_loop ?f 2 1 [] () = Some (Inr [10, 20, 30], ())"
    using cond [where fetch = ?f and page_size = 2 and page_number = 1 and acc = "[]"
                  and s = "()" and res = "[10, 20, 30]" and sf = "()", THEN conjunct1] f
    by (rule iffD2)
  moreover have "empty_page_loop ?g 1000 0 [] () = Some (Inr [[(''notice_id'', VStr ''N1'')]], ())"
    using cond [where range_fetch = ?g and limit = 1000 and offset = 0 and acc = "[]"
                  and s = "()" and res = "[[(''notice_id'', VStr ''N1'')]]" and sf = "()",
                THEN conjunct2, THEN conjunct1] g
    by (rule iffD2)
  moreover have "empty_page_loop ?g' 1000 0 [] () = Some (Inr [[(''piid'', VStr ''A1'')]], ())"
    using cond [where range_fetch = ?g' and limit = 1000 and offset = 0 and acc = "[]"
                  and s = "()" and res = "[[(''piid'', VStr ''A1'')]]" and sf = "()",
                THEN conjunct2, THEN conjunct1] g'
    by (rule iffD2)
  moreover have "searchid_loop ?h 5 1 [] () = Some (Inr [10, 20, 30], ())"
    using cond [where body_fetch = ?h and max_page_number = 5 and page_number = 1
                  and acc = "[]" and s = "()" and res = "[10, 20, 30]" and sf = "()",
                THEN conjunct2, THEN conjunct2, THEN conjunct1] h
    by (rule iffD2)
  moreover have "highergov_get_all_awards (static_api [10, 20, 30 :: nat]) ''key''
                   default_awards_args 2 () = short_page_loop ?f 2 1 [] ()"
    using cond [where requests_get = "static_api [10, 20, 30 :: nat]" and api_key = "''key''"
                  and page_size = 2 and a = default_awards_args and s = "()",
                THEN conjunct2, THEN conjunct2, THEN conjunct2, THEN conjunct1]
    by simp
  moreover have "test2_all_data
                   (static_store (\<lambda>c r. True) (\<lambda>t. [[(''notice_id'', VStr ''N1'')]])) ()
                 = empty_page_loop ?g 1000 0 [] ()"
    using cond [where client = "static_store (\<lambda>c r. True)
                                  (\<lambda>t. [[(''notice_id'', VStr ''N1'')]])" and s = "()",
                THEN conjunct2, THEN conjunct2, THEN conjunct2, THEN conjunct2, THEN conjunct2,
                THEN conjunct1] .
  moreover have "get_filtered_awards
                   (static_store (\<lambda>c r. True) (\<lambda>t. [[(''piid'', VStr ''A1'')]]))
                   default_AwardsQuery () = empty_page_loop ?g' 1000 0 [] ()"
    using r
      cond [where client = "static_store (\<lambda>c r. True) (\<lambda>t. [[(''piid'', VStr ''A1'')]])"
              and aq = default_AwardsQuery and s = "()" and fi = "[]" and fe = "[]"
              and ta = "()" and tb = "()",
            THEN conjunct2, THEN conjunct2, THEN conjunct2, THEN conjunct2, THEN conjunct2,
            THEN conjunct2, THEN conjunct1]
    by blast
  moreover have "get_all_opportunities_for_searchid (static_api [10, 20, 30 :: nat]) ''key''
                   ''sid'' 5 2 () = searchid_loop ?h 5 1 [] ()"
    using cond [where requests_get = "static_api [10, 20, 30 :: nat]" and api_key = "''key''"
                  and page_size = 2 and sid = "''sid''" and max_page_number = 5 and s = "()",
                THEN conjunct2, THEN conjunct2, THEN conjunct2, THEN conjunct2, THEN conjunct2,
                THEN conjunct2, THEN conjunct2] .
  ultimately show ?thesis
    by (simp only:)
qed



text \<open>
  C10. The loops of \<^verbatim>\<open>highergov_get_all_awards\<close> and
  \<^verbatim>\<open>highergov_get_all_opportunities\<close> terminate for a page size of at least 1 when at
  some page number the API returns fewer than \<open>page_size\<close> results (an earlier page that
  is short or fails ends the loop sooner). For \<open>page_size \<le> 0\<close>, which passes the check
  \<^verbatim>\<open>page_size > 100\<close>, the functions never return a list; when no request fails they do
  not terminate at all, and against the static API every page is then empty.
\<close>

theorem api_loops_terminate_unless_page_size_not_positive:
  fixes requests_get :: "('s, 'r) requests_get" and rows :: "'r list"
  shows
  "(1 \<le> page_size \<and> 1 \<le> m
      \<and> (\<forall>s. \<exists>xs s'. awards_page requests_get api_key a page_size s m = (Inr xs, s')
                       \<and> int (length xs) < page_size)
     \<longrightarrow> (\<exists>y. highergov_get_all_awards requests_get api_key a page_size s0 = Some y))
   \<and> (1 \<le> page_size \<and> 1 \<le> m
      \<and> (\<forall>s. \<exists>xs s'. opportunities_page requests_get api_key b page_size s m = (Inr xs, s')
                       \<and> int (length xs) < page_size)
     \<longrightarrow> (\<exists>y. highergov_get_all_opportunities requests_get api_key b page_size s0 = Some y))
   \<and> (page_size \<le> 0 \<and> api_key \<noteq> []
      \<and> (\<forall>s n. \<exists>xs s'. awards_page requests_get api_key a page_size s n = (Inr xs, s'))
     \<longrightarrow> highergov_get_all_awards requests_get api_key a page_size s0 = None)
   \<and> (page_size \<le> 0 \<and> api_key \<noteq> []
      \<and> (\<forall>s n. \<exists>xs s'. opportunities_page requests_get api_key b page_size s n = (Inr xs, s'))
     \<longrightarrow> highergov_get_all_opportunities requests_get api_key b page_size s0 = None)
   \<and> (page_size \<le> 0
     \<longrightarrow> highergov_get_all_awards requests_get api_key a page_size s0 \<noteq> Some (Inr res, sf)
         \<and> highergov_get_all_opportunities requests_get api_key b page_size s0
             \<noteq> Some (Inr res, sf))
   \<and> (page_size \<le> 0 \<and> api_key \<noteq> []
     \<longrightarrow> awards_page (static_api rows) api_key a page_size s0 n = (Inr [], s0)
         \<and> highergov_get_all_awards (static_api rows) api_key a page_size s0 = None
         \<and> opportunities_page (static_api rows) api_key b page_size s0 n = (Inr [], s0)
         \<and> highergov_get_all_opportunities (static_api rows) api_key b page_size s0 = None)"
proof (intro conjI impI)
  assume h: "1 \<le> page_size \<and> 1 \<le> m
      \<and> (\<forall>s. \<exists>xs s'. awards_page requests_get api_key a page_size s m = (Inr xs, s')
                       \<and> int (length xs) < page_size)"
  then have "\<exists>y. short_page_loop (awards_page requests_get api_key a page_size) page_size 1 [] s0
               = Some y"
    by (intro short_page_loop_terminates_from_1 [of m]) auto
  then show "\<exists>y. highergov_get_all_awards requests_get api_key a page_size s0 = Some y"
    by (simp add: highergov_get_all_awards_def)
next
  assume h: "1 \<le> page_size \<and> 1 \<le> m
      \<and> (\<forall>s. \<exists>xs s'. opportunities_page requests_get api_key b page_size s m = (Inr xs, s')
                       \<and> int (length xs) < page_size)"
  then have "\<exists>y. short_page_loop (opportunities_page requests_get api_key b page_size)
                   page_size 1 [] s0 = Some y"
    by (intro short_page_loop_terminates_from_1 [of m]) auto
  then show "\<exists>y. highergov_get_all_opportunities requests_get api_key b page_size s0 = Some y"
    by (simp add: highergov_get_all_opportunities_def)
next
  assume h: "page_size \<le> 0 \<and> api_key \<noteq> []
      \<and> (\<forall>s n. \<exists>xs s'. awards_page requests_get api_key a page_size s n = (Inr xs, s'))"
  then have "short_page_loop (awards_page requests_get api_key a page_size) page_size 1 [] s0
               = None"
    by (intro short_page_loop_diverges) auto
  with h show "highergov_get_all_awards requests_get api_key a page_size s0 = None"
    by (simp add: highergov_get_all_awards_def)
next
  assume h: "page_size \<le> 0 \<and> api_key \<noteq> []
      \<and> (\<forall>s n. \<exists>xs s'. opportunities_page requests_get api_key b page_size s n = (Inr xs, s'))"
  then have "short_page_loop (opportunities_page requests_get api_key b page_size)
               page_size 1 [] s0 = None"
    by (intro short_page_loop_diverges) auto
  with h show "highergov_get_all_opportunities requests_get api_key b page_size s0 = None"
    by (simp add: highergov_get_all_opportunities_def)
next
  assume h: "page_size \<le> 0"
  show "highergov_get_all_awards requests_get api_key a page_size s0 \<noteq> Some (Inr res, sf)"
    using short_page_loop_never_returns
            [OF h, of "awards_page requests_get api_key a page_size" 1 "[]" s0 "(Inr res, sf)"]
    by (auto simp: highergov_get_all_awards_def)
  show "highergov_get_all_opportunities requests_get api_key b page_size s0
          \<noteq> Some (Inr res, sf)"
    using short_page_loop_never_returns
            [OF h, of "opportunities_page requests_get api_key b page_size" 1 "[]" s0
               "(Inr res, sf)"]
    by (auto simp: highergov_get_all_opportunities_def)
next
  assume h: "page_size \<le> 0 \<and> api_key \<noteq> []"
  then show "awards_page (static_api rows) api_key a page_size s0 n = (Inr [], s0)"
    by (simp add: awards_page_static)
  from h have "short_page_loop (awards_page (static_api rows) api_key a page_size)
                 page_size 1 [] s0 = None"
    by (intro short_page_loop_diverges) (auto simp: awards_page_static)
  with h show "highergov_get_all_awards (static_api rows) api_key a page_size s0 = None"
    by (simp add: highergov_get_all_awards_def)
  from h show "opportunities_page (static_api rows) api_key b page_size s0 n = (Inr [], s0)"
    by (simp add: opportunities_page_static)
  from h have "short_page_loop (opportunities_page (static_api rows) api_key b page_size)
                 page_size 1 [] s0 = None"
    by (intro short_page_loop_diverges) (auto simp: opportunities_page_static)
  with h show "highergov_get_all_opportunities (static_api rows) api_key b page_size s0 = None"
    by (simp add: highergov_get_all_opportunities_def)
qed

theorem api_loops_terminate_unless_page_size_not_positive_witness:
  "(\<exists>y. highergov_get_all_awards (static_api [1, 2, 3 :: nat]) ''key'' default_awards_args 2 ()
           = Some y)
   \<and> (\<exists>y. highergov_get_all_opportunities (static_api [1, 2, 3 :: nat]) ''key''
             default_opportunities_args 2 () = Some y)
   \<and> awards_page (static_api [1, 2, 3 :: nat]) ''key'' default_awards_args 0 () 1 = (Inr [], ())
   \<and> highergov_get_all_awards (static_api [1, 2, 3 :: nat]) ''key'' default_awards_args 0 ()
       = None
   \<and> highergov_get_all_opportunities (static_api [1, 2, 3 :: nat]) ''key''
       default_opportunities_args 0 () = None"
proof -
  have short: "\<forall>s :: unit. \<exists>xs s'.
      awards_page (static_api [1, 2, 3 :: nat]) ''key'' default_awards_args 2 s 2 = (Inr xs, s')
      \<and> int (length xs) < 2"
    by (simp add: awards_page_static)
  have short': "\<forall>s :: unit. \<exists>xs s'.
      opportunities_page (static_api [1, 2, 3 :: nat]) ''key'' default_opportunities_args 2 s 2
        = (Inr xs, s') \<and> int (length xs) < 2"
    by (simp add: opportunities_page_static)
  show ?thesis
    using short short'
      api_loops_terminate_unless_page_size_not_positive
        [of 2 2 "static_api [1, 2, 3 :: nat]" "''key''" default_awards_args "()"
            default_opportunities_args "[]" "()" "[1, 2, 3 :: nat]" 1]
      api_loops_terminate_unless_page_size_not_positive
        [of 0 1 "static_api [1, 2, 3 :: nat]" "''key''" default_awards_args "()"
            default_opportunities_args "[]" "()" "[1, 2, 3 :: nat]" 1]
    by simp
qed

text \<open>
  C1, as the spec states it: for every page size \<open>P \<ge> 1\<close> the fetchers return every
  record of an unchanging data set. \<^verbatim>\<open>highergov_get_all_awards\<close> refuses a page size
  above 100 before it sends a request: with \<open>P = 101\<close> it raises \<^verbatim>\<open>ValueError\<close> and
  returns no record.
\<close>

theorem page_size_above_100_counterexample:
  "highergov_get_all_awards (static_api [10 :: nat]) ''key'' default_awards_args 101 ()
     = Some (Inl (ValueError ''page_size cannot exceed 100''), ())
   \<and> highergov_get_all_awards (static_api [10 :: nat]) ''key'' default_awards_args 101 ()
     \<noteq> Some (Inr [10], ())"
  by (simp add: highergov_get_all_awards_def)

text \<open>
  C1, amended. Against a data set that does not change:
  \<^item> for a non-empty API key and every page size \<open>1 \<le> P \<le> 100\<close>,
    \<^verbatim>\<open>highergov_get_all_awards\<close> and \<^verbatim>\<open>highergov_get_all_opportunities\<close> return
    exactly the list of the records the API holds: every record once, in its order;
  \<^item> the store-style loop of \<^verbatim>\<open>get_filtered_awards\<close> returns, for every page size
    \<open>limit \<ge> 1\<close>, exactly the rows of \<^verbatim>\<open>awards\<close> that satisfy the clauses of the
    query, in the store's order; \<^verbatim>\<open>get_filtered_awards\<close> itself, whose page size is
    fixed at 1000, returns these rows for the codes its two lookups resolved;
  \<^item> consequently a fetch with page size \<open>P\<close> and one with \<open>P div 2\<close> return the same
    list (hence the same set) when \<open>2 \<le> P \<le> 100\<close> for the API and \<open>2 \<le> limit\<close> for
    the store loop.
\<close>

theorem static_data_fetched_once_in_order:
  fixes rows :: "'r list" and s :: 's and t :: 't
  shows
  "(api_key \<noteq> [] \<and> 1 \<le> P \<and> P \<le> 100 \<longrightarrow>
      highergov_get_all_awards (static_api rows) api_key a P s = Some (Inr rows, s)
      \<and> highergov_get_all_opportunities (static_api rows) api_key b P s = Some (Inr rows, s))
   \<and> (1 \<le> limit \<longrightarrow>
        empty_page_loop
          (\<lambda>s offset. static_store other db s (awards_query aq fi fe offset limit)) limit 0 [] t
        = Some (Inr (matching_rows other (clauses (awards_query aq fi fe 0 limit)) (db ''awards'')),
                t))
   \<and> (\<exists>codes_include codes_exclude.
        resolve_fpds_codes (static_store other db) (INCLUDE_ORGANIZATION_KEYS aq) t
          = (Inr codes_include, t)
        \<and> resolve_fpds_codes (static_store other db) (EXCLUDE_ORGANIZATION_KEYS aq) t
          = (Inr codes_exclude, t)
        \<and> get_filtered_awards (static_store other db) aq t
          = Some (Inr (matching_rows other
                         (clauses (awards_query aq codes_include codes_exclude 0 1000))
                         (db ''awards'')), t))
   \<and> (api_key \<noteq> [] \<and> 2 \<le> P \<and> P \<le> 100 \<longrightarrow>
        highergov_get_all_awards (static_api rows) api_key a (P div 2) s
          = highergov_get_all_awards (static_api rows) api_key a P s
        \<and> highergov_get_all_opportunities (static_api rows) api_key b (P div 2) s
          = highergov_get_all_opportunities (static_api rows) api_key b P s)
   \<and> (2 \<le> limit \<longrightarrow>
        empty_page_loop
          (\<lambda>s offset. static_store other db s (awards_query aq fi fe offset (limit div 2)))
          (limit div 2) 0 [] t
        = empty_page_loop
          (\<lambda>s offset. static_store other db s (awards_query aq fi fe offset limit)) limit 0 [] t)"
proof (intro conjI impI)
  assume h: "api_key \<noteq> [] \<and> 1 \<le> P \<and> P \<le> 100"
  then show "highergov_get_all_awards (static_api rows) api_key a P s = Some (Inr rows, s)"
    by (simp add: static_api_fetch_all_awards)
  from h show "highergov_get_all_opportunities (static_api rows) api_key b P s
                 = Some (Inr rows, s)"
    by (simp add: static_api_fetch_all_opportunities)
next
  assume "1 \<le> limit"
  then show "empty_page_loop
          (\<lambda>s offset. static_store other db s (awards_query aq fi fe offset limit)) limit 0 [] t
        = Some (Inr (matching_rows other (clauses (awards_query aq fi fe 0 limit)) (db ''awards'')),
                t)"
    by (simp add: static_store_fetch_all) (simp add: awards_query_def)
next
  obtain ci where i: "resolve_fpds_codes (static_store other db) (INCLUDE_ORGANIZATION_KEYS aq) t
                        = (Inr ci, t)"
    using resolve_fpds_codes_static [of other db "INCLUDE_ORGANIZATION_KEYS aq" t] by blast
  obtain ce where e: "resolve_fpds_codes (static_store other db) (EXCLUDE_ORGANIZATION_KEYS aq) t
                        = (Inr ce, t)"
    using resolve_fpds_codes_static [of other db "EXCLUDE_ORGANIZATION_KEYS aq" t] by blast
  have "get_filtered_awards (static_store other db) aq t
          = Some (Inr (matching_rows other (clauses (awards_query aq ci ce 0 1000))
                         (db ''awards'')), t)"
    by (simp add: get_filtered_awards_static [OF i e]) (simp add: awards_query_def)
  with i e show "\<exists>codes_include codes_exclude.
        resolve_fpds_codes (static_store other db) (INCLUDE_ORGANIZATION_KEYS aq) t
          = (Inr codes_include, t)
        \<and> resolve_fpds_codes (static_store other db) (EXCLUDE_ORGANIZATION_KEYS aq) t
          = (Inr codes_exclude, t)
        \<and> get_filtered_awards (static_store other db) aq t
          = Some (Inr (matching_rows other
                         (clauses (awards_query aq codes_include codes_exclude 0 1000))
                         (db ''awards'')), t)"
    by blast
next
  assume h: "api_key \<noteq> [] \<and> 2 \<le> P \<and> P \<le> 100"
  then have half: "1 \<le> P div 2" "P div 2 \<le> 100" by auto
  from h half show "highergov_get_all_awards (static_api rows) api_key a (P div 2) s
          = highergov_get_all_awards (static_api rows) api_key a P s"
    by (simp add: static_api_fetch_all_awards)
  from h half show "highergov_get_all_opportunities (static_api rows) api_key b (P div 2) s
          = highergov_get_all_opportunities (static_api rows) api_key b P s"
    by (simp add: static_api_fetch_all_opportunities)
next
  assume h: "2 \<le> limit"
  then have "1 \<le> limit div 2" "1 \<le> limit" by auto
  then show "empty_page_loop
          (\<lambda>s offset. static_store other db s (awards_query aq fi fe offset (limit div 2)))
          (limit div 2) 0 [] t
        = empty_page_loop
          (\<lambda>s offset. static_store other db s (awards_query aq fi fe offset limit)) limit 0 [] t"
    by (simp add: static_store_fetch_all)
qed

theorem static_data_fetched_once_in_order_witness:
  "highergov_get_all_awards (static_api [10, 20, 30, 40, 50 :: nat]) ''key''
     default_awards_args 4 () = Some (Inr [10, 20, 30, 40, 50], ())
   \<and> highergov_get_all_awards (static_api [10, 20, 30, 40, 50 :: nat]) ''key''
     default_awards_args (4 div 2) () = Some (Inr [10, 20, 30, 40, 50], ())
   \<and> highergov_get_all_opportunities (static_api [10, 20, 30, 40, 50 :: nat]) ''key''
     default_opportunities_args 4 () = Some (Inr [10, 20, 30, 40, 50], ())
   \<and> get_filtered_awards
       (static_store (\<lambda>c r. True)
          (\<lambda>t. if t = ''awards'' then [[(''piid'', VStr ''A1'')], [(''piid'', VStr ''A2'')]]
               else []))
       default_AwardsQuery ()
     = Some (Inr [[(''piid'', VStr ''A1'')], [(''piid'', VStr ''A2'')]], ())"
proof -
  have r: "\<And>keys. keys = None \<Longrightarrow>
      resolve_fpds_codes
        (static_store (\<lambda>c r. True)
          (\<lambda>t. if t = ''awards'' then [[(''piid'', VStr ''A1'')], [(''piid'', VStr ''A2'')]]
               else [])) keys () = (Inr [], ())"
    by (simp add: resolve_fpds_codes_def)
  have d: "INCLUDE_ORGANIZATION_KEYS default_AwardsQuery = None"
      "EXCLUDE_ORGANIZATION_KEYS default_AwardsQuery = None"
      "KEYWORD_QUERY default_AwardsQuery = None"
    by (simp_all add: default_AwardsQuery_def)
  show ?thesis
    using static_data_fetched_once_in_order
            [where api_key = "''key''" and P = 4 and rows = "[10, 20, 30, 40, 50 :: nat]"
               and a = default_awards_args and b = default_opportunities_args and s = "()"
               and limit = 1000 and other = "\<lambda>c r. True"
               and db = "\<lambda>t. if t = ''awards''
                              then [[(''piid'', VStr ''A1'')], [(''piid'', VStr ''A2'')]] else []"
               and aq = default_AwardsQuery and fi = "[]" and fe = "[]" and t = "()"]
    by (simp add: r d awards_query_def keyword_clause_def matching_rows_def)
qed

section \<open>Claims about the translation of filters\<close>

text \<open>
  C4, as the spec states it: with every filter unset the translation adds no constraint
  and the fetch returns the whole collection. \<^verbatim>\<open>get_filtered_notices\<close> called with no
  filter at all has \<^verbatim>\<open>active = True\<close>, its default, and adds two constraints
  (\<^verbatim>\<open>latest = true\<close> and a response deadline after the current time); a notice that is
  not the latest is then not returned.
\<close>

theorem notices_default_active_counterexample:
  "notices_clauses (\<lambda>x. None) (\<lambda>i. []) ''2025-03-17T00:00:00+00:00'' default_notices_args
     = Inr [FEq ''latest'' (VBool True),
            FGt ''solicitation_response_deadline'' (VStr ''2025-03-17T00:00:00+00:00'')]
   \<and> get_filtered_notices
       (static_store (\<lambda>c r. True) (\<lambda>t. [[(''latest'', VBool False)]]))
       (\<lambda>s. ''2025-03-17T00:00:00+00:00'') (\<lambda>x. None) (\<lambda>i. []) default_notices_args ()
     = Some (Inr [], ())"
proof -
  have "empty_page_loop
          (notices_page (static_store (\<lambda>c r. True) (\<lambda>t. [[(''latest'', VBool False)]]))
             (\<lambda>s. ''2025-03-17T00:00:00+00:00'') (\<lambda>x. None) (\<lambda>i. []) default_notices_args 1000)
          1000 0 [] () = Some (Inr [], ())"
    by (subst empty_page_loop.simps)
       (simp add: notices_page_def notices_clauses_default static_store_def matching_rows_def)
  then show ?thesis
    by (simp add: get_filtered_notices_def notices_clauses_default)
qed

text \<open>
  C4, amended. With every field of \<^verbatim>\<open>AwardsQuery\<close> unset, \<^verbatim>\<open>get_filtered_awards\<close> makes
  no lookup, adds no clause to the query and, against a static store, returns the whole
  \<^verbatim>\<open>awards\<close> table. With every optional argument unset and \<^verbatim>\<open>active = False\<close>,
  \<^verbatim>\<open>get_filtered_notices\<close> adds no clause and returns the whole \<^verbatim>\<open>notices\<close> table; with
  \<^verbatim>\<open>active\<close> left at its default \<^verbatim>\<open>True\<close> it adds exactly the two clauses
  \<^verbatim>\<open>latest = true\<close> and \<^verbatim>\<open>solicitation_response_deadline > now\<close>.
\<close>

theorem unset_filters_add_no_constraint:
  "awards_clauses default_AwardsQuery [] [] = []
   \<and> resolve_fpds_codes client (INCLUDE_ORGANIZATION_KEYS default_AwardsQuery) s = (Inr [], s)
   \<and> resolve_fpds_codes client (EXCLUDE_ORGANIZATION_KEYS default_AwardsQuery) s = (Inr [], s)
   \<and> clauses (awards_query default_AwardsQuery [] [] offset limit) = []
   \<and> get_filtered_awards (static_store other db) default_AwardsQuery s
       = Some (Inr (db ''awards''), s)
   \<and> notices_clauses py_int py_str now (default_notices_args\<lparr>active := False\<rparr>) = Inr []
   \<and> get_filtered_notices (static_store other db) clock py_int py_str
         (default_notices_args\<lparr>active := False\<rparr>) s
       = Some (Inr (db ''notices''), s)
   \<and> notices_clauses py_int py_str now default_notices_args
       = Inr [FEq ''latest'' (VBool True), FGt ''solicitation_response_deadline'' (VStr now)]"
proof -
  have "KEYWORD_QUERY default_AwardsQuery = None"
    "INCLUDE_ORGANIZATION_KEYS default_AwardsQuery = None"
    "EXCLUDE_ORGANIZATION_KEYS default_AwardsQuery = None"
    by (simp_all add: default_AwardsQuery_def)
  then show ?thesis
    by (simp add: awards_query_def keyword_clause_def resolve_fpds_codes_def
        get_filtered_awards_default_static notices_clauses_inactive
        get_filtered_notices_inactive_static notices_clauses_default)
qed

theorem unset_filters_add_no_constraint_witness:
  "get_filtered_awards
     (static_store (\<lambda>c r. False)
        (\<lambda>t. if t = ''awards'' then [[(''piid'', VStr ''A1'')], [(''piid'', VStr ''A2'')]] else []))
     default_AwardsQuery ()
     = Some (Inr [[(''piid'', VStr ''A1'')], [(''piid'', VStr ''A2'')]], ())
   \<and> get_filtered_notices
       (static_store (\<lambda>c r. False) (\<lambda>t. [[(''latest'', VBool False)]]))
       (\<lambda>s. ''2025-03-17T00:00:00+00:00'') (\<lambda>x. None) (\<lambda>i. [])
       (default_notices_args\<lparr>active := False\<rparr>) ()
     = Some (Inr [[(''latest'', VBool False)]], ())"
  using unset_filters_add_no_constraint
          [where other = "\<lambda>c r. False" and s = "()"
             and db = "\<lambda>t. if t = ''awards''
                            then [[(''piid'', VStr ''A1'')], [(''piid'', VStr ''A2'')]] else []"]
        unset_filters_add_no_constraint
          [where other = "\<lambda>c r. False" and s = "()"
             and db = "\<lambda>t. [[(''latest'', VBool False)]]"
             and clock = "\<lambda>s. ''2025-03-17T00:00:00+00:00''" and py_int = "\<lambda>x. None"
             and py_str = "\<lambda>i. []"]
  by simp




text \<open>
  C6. When \<^verbatim>\<open>INCLUDE_ORGANIZATION_KEYS\<close> is supplied and the lookup in
  \<^verbatim>\<open>organizations\<close> resolves no fpds code (no row, or no row with a code):
  \<^item> the list of resolved codes is empty;
  \<^item> the fetch is the loop over the queries \<open>awards_query aq [] fe\<close>, and the only
    clauses of such a query on \<^verbatim>\<open>funding_agency_subtier_agency_code\<close> are the \<^verbatim>\<open>neq\<close>
    clauses of the exclusion codes: there is no inclusion clause, in particular none
    with an empty list;
  \<^item> the fetch equals the fetch without the key list, started in the world the lookup
    left.

  The lookup for \<^verbatim>\<open>EXCLUDE_ORGANIZATION_KEYS\<close> comes second. When the first lookup gave
  the codes \<open>fi\<close> and left the world \<open>sa\<close>, and the second resolves no code and
  leaves the world \<open>sb\<close>, the fetch is the loop over the queries
  \<open>awards_query aq fi []\<close> started in \<open>sb\<close>, the fetch without the exclusion keys is
  the same loop started in \<open>sa\<close>, and such a query holds no \<^verbatim>\<open>neq\<close> clause on the
  column. The two fetches are equal when the lookup leaves the world as it was.

  Against a store whose data does not change, a query with nothing but an unresolved key
  list returns the whole \<^verbatim>\<open>awards\<close> table and not the empty list, and with other
  filters present the fetch returns what it returns without the key list.
\<close>

theorem unresolved_organization_filter_is_dropped:
  "(list_of (INCLUDE_ORGANIZATION_KEYS aq) \<noteq> []
      \<and> client s (organizations_query (list_of (INCLUDE_ORGANIZATION_KEYS aq))) = (Inr data, s')
      \<and> fpds_codes_of data = []
     \<longrightarrow> resolve_fpds_codes client (INCLUDE_ORGANIZATION_KEYS aq) s = (Inr [], s')
         \<and> get_filtered_awards client aq s
             = (case resolve_fpds_codes client (EXCLUDE_ORGANIZATION_KEYS aq) s' of
                  (Inl e, sb) \<Rightarrow> Some (Inl e, sb)
                | (Inr fe, sb) \<Rightarrow>
                    empty_page_loop (\<lambda>s offset. client s (awards_query aq [] fe offset 1000))
                      1000 0 [] sb)
         \<and> get_filtered_awards client aq s
             = get_filtered_awards client (aq\<lparr>INCLUDE_ORGANIZATION_KEYS := None\<rparr>) s')
   \<and> filter (\<lambda>c. clause_column c = Some ''funding_agency_subtier_agency_code'')
        (clauses (awards_query aq [] fe offset limit))
      = map (FNeq ''funding_agency_subtier_agency_code'') fe
   \<and> (list_of (EXCLUDE_ORGANIZATION_KEYS aq) \<noteq> []
      \<and> resolve_fpds_codes client (INCLUDE_ORGANIZATION_KEYS aq) s = (Inr fi, sa)
      \<and> client sa (organizations_query (list_of (EXCLUDE_ORGANIZATION_KEYS aq))) = (Inr data', sb)
      \<and> fpds_codes_of data' = []
     \<longrightarrow> resolve_fpds_codes client (EXCLUDE_ORGANIZATION_KEYS aq) sa = (Inr [], sb)
         \<and> get_filtered_awards client aq s
             = empty_page_loop (\<lambda>s offset. client s (awards_query aq fi [] offset 1000))
                 1000 0 [] sb
         \<and> get_filtered_awards client (aq\<lparr>EXCLUDE_ORGANIZATION_KEYS := None\<rparr>) s
             = empty_page_loop (\<lambda>s offset. client s (awards_query aq fi [] offset 1000))
                 1000 0 [] sa
         \<and> (sb = sa \<longrightarrow>
              get_filtered_awards client aq s
                = get_filtered_awards client (aq\<lparr>EXCLUDE_ORGANIZATION_KEYS := None\<rparr>) s))
   \<and> filter (\<lambda>c. clause_column c = Some ''funding_agency_subtier_agency_code'')
        (clauses (awards_query aq fi [] offset limit))
      = (if fi = [] then [] else [FIn ''funding_agency_subtier_agency_code'' fi])
   \<and> (fpds_codes_of (matching_rows other [FIn ''organization_key'' (map VStr keys)]
                       (db ''organizations'')) = []
     \<longrightarrow> get_filtered_awards (static_store other db)
           (default_AwardsQuery\<lparr>INCLUDE_ORGANIZATION_KEYS := Some keys\<rparr>) s
         = Some (Inr (db ''awards''), s)
       \<and> get_filtered_awards (static_store other db)
           (default_AwardsQuery\<lparr>EXCLUDE_ORGANIZATION_KEYS := Some keys\<rparr>) s
         = Some (Inr (db ''awards''), s)
       \<and> get_filtered_awards (static_store other db)
           (aq\<lparr>INCLUDE_ORGANIZATION_KEYS := Some keys\<rparr>) s
         = get_filtered_awards (static_store other db)
           (aq\<lparr>INCLUDE_ORGANIZATION_KEYS := None\<rparr>) s
       \<and> get_filtered_awards (static_store other db)
           (aq\<lparr>EXCLUDE_ORGANIZATION_KEYS := Some keys\<rparr>) s
         = get_filtered_awards (static_store other db)
           (aq\<lparr>EXCLUDE_ORGANIZATION_KEYS := None\<rparr>) s)"
proof (intro conjI impI)
  assume h: "list_of (INCLUDE_ORGANIZATION_KEYS aq) \<noteq> []
      \<and> client s (organizations_query (list_of (INCLUDE_ORGANIZATION_KEYS aq))) = (Inr data, s')
      \<and> fpds_codes_of data = []"
  then show l: "resolve_fpds_codes client (INCLUDE_ORGANIZATION_KEYS aq) s = (Inr [], s')"
    by (simp add: unresolved_lookup)
  show "get_filtered_awards client aq s
             = (case resolve_fpds_codes client (EXCLUDE_ORGANIZATION_KEYS aq) s' of
                  (Inl e, sb) \<Rightarrow> Some (Inl e, sb)
                | (Inr fe, sb) \<Rightarrow>
                    empty_page_loop (\<lambda>s offset. client s (awards_query aq [] fe offset 1000))
                      1000 0 [] sb)"
    using l by (rule include_unresolved_fetch)
  show "get_filtered_awards client aq s
             = get_filtered_awards client (aq\<lparr>INCLUDE_ORGANIZATION_KEYS := None\<rparr>) s'"
    using l by (rule include_unresolved_fetch)
next
  show "filter (\<lambda>c. clause_column c = Some ''funding_agency_subtier_agency_code'')
        (clauses (awards_query aq [] fe offset limit))
      = map (FNeq ''funding_agency_subtier_agency_code'') fe"
    by (simp add: organization_clauses_of_awards_query)
next
  assume h: "list_of (EXCLUDE_ORGANIZATION_KEYS aq) \<noteq> []
      \<and> resolve_fpds_codes client (INCLUDE_ORGANIZATION_KEYS aq) s = (Inr fi, sa)
      \<and> client sa (organizations_query (list_of (EXCLUDE_ORGANIZATION_KEYS aq))) = (Inr data', sb)
      \<and> fpds_codes_of data' = []"
  then have i: "resolve_fpds_codes client (INCLUDE_ORGANIZATION_KEYS aq) s = (Inr fi, sa)"
    by simp
  from h show l: "resolve_fpds_codes client (EXCLUDE_ORGANIZATION_KEYS aq) sa = (Inr [], sb)"
    by (simp add: unresolved_lookup)
  show a: "get_filtered_awards client aq s
             = empty_page_loop (\<lambda>s offset. client s (awards_query aq fi [] offset 1000))
                 1000 0 [] sb"
    using i l by (rule exclude_unresolved_fetch)
  show b: "get_filtered_awards client (aq\<lparr>EXCLUDE_ORGANIZATION_KEYS := None\<rparr>) s
             = empty_page_loop (\<lambda>s offset. client s (awards_query aq fi [] offset 1000))
                 1000 0 [] sa"
    using i l by (rule exclude_unresolved_fetch)
  assume "sb = sa"
  with a b show "get_filtered_awards client aq s
                = get_filtered_awards client (aq\<lparr>EXCLUDE_ORGANIZATION_KEYS := None\<rparr>) s"
    by simp
next
  show "filter (\<lambda>c. clause_column c = Some ''funding_agency_subtier_agency_code'')
        (clauses (awards_query aq fi [] offset limit))
      = (if fi = [] then [] else [FIn ''funding_agency_subtier_agency_code'' fi])"
    by (simp add: organization_clauses_of_awards_query)
next
  assume h: "fpds_codes_of (matching_rows other [FIn ''organization_key'' (map VStr keys)]
                       (db ''organizations'')) = []"
  from h show "get_filtered_awards (static_store other db)
           (default_AwardsQuery\<lparr>INCLUDE_ORGANIZATION_KEYS := Some keys\<rparr>) s
         = Some (Inr (db ''awards''), s)"
    by (rule unresolved_keys_static)
  from h show "get_filtered_awards (static_store other db)
           (default_AwardsQuery\<lparr>EXCLUDE_ORGANIZATION_KEYS := Some keys\<rparr>) s
         = Some (Inr (db ''awards''), s)"
    by (rule unresolved_keys_static)
  from h show "get_filtered_awards (static_store other db)
           (aq\<lparr>INCLUDE_ORGANIZATION_KEYS := Some keys\<rparr>) s
         = get_filtered_awards (static_store other db)
           (aq\<lparr>INCLUDE_ORGANIZATION_KEYS := None\<rparr>) s"
    by (rule unresolved_keys_static)
  from h show "get_filtered_awards (static_store other db)
           (aq\<lparr>EXCLUDE_ORGANIZATION_KEYS := Some keys\<rparr>) s
         = get_filtered_awards (static_store other db)
           (aq\<lparr>EXCLUDE_ORGANIZATION_KEYS := None\<rparr>) s"
    by (rule unresolved_keys_static)
qed

theorem unresolved_organization_filter_is_dropped_witness:
  "static_store (\<lambda>c r. True) example_organizations ()
      (organizations_query [''K3'']) = (Inr [[(''organization_key'', VStr ''K3'')]], ())
   \<and> fpds_codes_of [[(''organization_key'', VStr ''K3'')]] = []
   \<and> example_organizations ''awards'' \<noteq> []
   \<and> get_filtered_awards (static_store (\<lambda>c r. True) example_organizations)
       (default_AwardsQuery\<lparr>INCLUDE_ORGANIZATION_KEYS := Some [''K3'']\<rparr>) ()
     = Some (Inr (example_organizations ''awards''), ())
   \<and> get_filtered_awards (static_store (\<lambda>c r. True) example_organizations)
       (default_AwardsQuery\<lparr>EXCLUDE_ORGANIZATION_KEYS := Some [''K3'']\<rparr>) ()
     = Some (Inr (example_organizations ''awards''), ())
   \<and> get_filtered_awards (counting_store (\<lambda>c r. True) example_organizations)
       (default_AwardsQuery\<lparr>INCLUDE_ORGANIZATION_KEYS := Some [''K3'']\<rparr>) 0
     = Some (Inr (example_organizations ''awards''), 3)
   \<and> get_filtered_awards (counting_store (\<lambda>c r. True) example_organizations)
       (default_AwardsQuery\<lparr>EXCLUDE_ORGANIZATION_KEYS := Some [''K3'']\<rparr>) 0
     = Some (Inr (example_organizations ''awards''), 3)
   \<and> get_filtered_awards (counting_store (\<lambda>c r. True) example_organizations)
       default_AwardsQuery 0
     = Some (Inr (example_organizations ''awards''), 2)"
proof -
  let ?st = "static_store (\<lambda>c r. True) example_organizations :: unit client"
  let ?ct = "counting_store (\<lambda>c r. True) example_organizations"
  let ?inc = "default_AwardsQuery\<lparr>INCLUDE_ORGANIZATION_KEYS := Some [''K3'']\<rparr>"
  let ?exc = "default_AwardsQuery\<lparr>EXCLUDE_ORGANIZATION_KEYS := Some [''K3'']\<rparr>"
  let ?data = "[[(''organization_key'', VStr ''K3'')]]"
  have m: "matching_rows (\<lambda>c r. True) [FIn ''organization_key'' (map VStr [''K3''])]
             (example_organizations ''organizations'') = ?data"
    by (simp add: matching_rows_def example_organizations_def)
  have q: "?st () (organizations_query [''K3'']) = (Inr ?data, ())"
    using m by (simp add: static_store_def organizations_query_def)
  have qc: "\<And>n. ?ct n (organizations_query [''K3'']) = (Inr ?data, n + 1)"
    using m by (simp add: counting_store_def static_store_def organizations_query_def)
  have c: "fpds_codes_of ?data = []"
    by (simp add: fpds_codes_of_def List.map_filter_simps)
  have ne: "example_organizations ''awards'' \<noteq> []"
    by (simp add: example_organizations_def)
  have d: "INCLUDE_ORGANIZATION_KEYS default_AwardsQuery = None"
    "EXCLUDE_ORGANIZATION_KEYS default_AwardsQuery = None"
    "KEYWORD_QUERY default_AwardsQuery = None"
    by (simp_all add: default_AwardsQuery_def)
  have u: "?inc\<lparr>INCLUDE_ORGANIZATION_KEYS := None\<rparr> = default_AwardsQuery"
    "?exc\<lparr>EXCLUDE_ORGANIZATION_KEYS := None\<rparr> = default_AwardsQuery"
    by (simp_all add: default_AwardsQuery_def)
  have hyp: "fpds_codes_of (matching_rows (\<lambda>c r. True)
                [FIn ''organization_key'' (map VStr [''K3''])]
                (example_organizations ''organizations'')) = []"
    by (simp add: matching_rows_def example_organizations_def fpds_codes_of_def
        List.map_filter_simps)
  note static =
    unresolved_organization_filter_is_dropped
      [where other = "\<lambda>c r. True" and db = example_organizations and keys = "[''K3'']"
         and s = "()" and aq = default_AwardsQuery,
       THEN conjunct2, THEN conjunct2, THEN conjunct2, THEN conjunct2, THEN mp, OF hyp]
  have st: "get_filtered_awards ?st ?inc () = Some (Inr (example_organizations ''awards''), ())"
    "get_filtered_awards ?st ?exc () = Some (Inr (example_organizations ''awards''), ())"
    using static [THEN conjunct1] static [THEN conjunct2, THEN conjunct1] by simp_all
  have hi: "list_of (INCLUDE_ORGANIZATION_KEYS ?inc) \<noteq> []
      \<and> ?ct 0 (organizations_query (list_of (INCLUDE_ORGANIZATION_KEYS ?inc))) = (Inr ?data, 1)
      \<and> fpds_codes_of ?data = []"
    using qc [of 0] c by simp
  note include_half =
    unresolved_organization_filter_is_dropped
      [where client = ?ct and aq = ?inc and s = 0 and s' = 1 and data = ?data,
       THEN conjunct1, THEN mp, OF hi]
  have ci: "get_filtered_awards ?ct ?inc 0 = get_filtered_awards ?ct default_AwardsQuery 1"
    using include_half [THEN conjunct2, THEN conjunct2] by (simp add: u)
  have he: "list_of (EXCLUDE_ORGANIZATION_KEYS ?exc) \<noteq> []
      \<and> resolve_fpds_codes ?ct (INCLUDE_ORGANIZATION_KEYS ?exc) 0 = (Inr [], 0)
      \<and> ?ct 0 (organizations_query (list_of (EXCLUDE_ORGANIZATION_KEYS ?exc))) = (Inr ?data, 1)
      \<and> fpds_codes_of ?data = []"
    using qc [of 0] c by (simp add: d)
  note exclude_half =
    unresolved_organization_filter_is_dropped
      [where client = ?ct and aq = ?exc and s = 0 and sa = 0 and sb = 1 and fi = "[]"
         and data' = ?data,
       THEN conjunct2, THEN conjunct2, THEN conjunct1, THEN mp, OF he]
  have ce: "get_filtered_awards ?ct ?exc 0
              = empty_page_loop (\<lambda>s offset. ?ct s (awards_query ?exc [] [] offset 1000))
                  1000 0 [] 1"
    using exclude_half [THEN conjunct2, THEN conjunct1] .
  have "empty_page_loop (\<lambda>s offset. ?ct s (awards_query ?exc [] [] offset 1000)) 1000 0 [] 1
          = Some (Inr ([] @ example_organizations ''awards''), 1 + 1 + 1)"
    by (rule empty_page_loop_two_passes)
       (simp_all add: awards_clauses_default_keys counting_store_def
          static_store_def awards_query_def d keyword_clause_def example_organizations_def)
  with ce have e3: "get_filtered_awards ?ct ?exc 0
                      = Some (Inr (example_organizations ''awards''), 3)"
    by simp
  from ci have i3: "get_filtered_awards ?ct ?inc 0
                      = Some (Inr (example_organizations ''awards''), 3)"
    by (simp add: example_organizations_fetch)
  show ?thesis
    using q c ne st i3 e3 example_organizations_fetch [of 0] by simp
qed

section \<open>Claims about the reconciliation\<close>

text \<open>
  C2. A record of one collection is matched exactly when some record of the other
  collection has an Identity Set that meets its own; the records reported as unmatched in
  A are exactly the records of A with no such counterpart, in their order, and the same
  for B; the counts are the lengths and the total is their sum. For
  A = [{X1}, {X2}] and B = [{X1, Y1}] the unmatched records of A are [{X2}], those of B
  are [], and the total is 1.
\<close>

theorem reconcile_matched_iff_intersecting:
  "(find_match r B \<longleftrightarrow> (\<exists>b\<in>set B. r \<inter> b \<noteq> {}))
   \<and> mismatch_records_csv (main_report A B) = filter (\<lambda>a. \<not> (\<exists>b\<in>set B. a \<inter> b \<noteq> {})) A
   \<and> mismatch_records_results (main_report A B) = filter (\<lambda>b. \<not> (\<exists>a\<in>set A. b \<inter> a \<noteq> {})) B
   \<and> mismatches_csv (main_report A B) = length (mismatch_records_csv (main_report A B))
   \<and> mismatches_results (main_report A B) = length (mismatch_records_results (main_report A B))
   \<and> total_mismatches (main_report A B)
       = mismatches_csv (main_report A B) + mismatches_results (main_report A B)
   \<and> main_report [{''X1''}, {''X2''}] [{''X1'', ''Y1''}]
       = \<lparr>mismatch_records_csv = [{''X2''}], mismatches_csv = 1,
          mismatch_records_results = [], mismatches_results = 0, total_mismatches = 1\<rparr>"
  by (simp add: main_report_def Let_def find_match_iff)

theorem reconcile_matched_iff_intersecting_witness:
  "find_match {''X1''} [{''X1'', ''Y1''}]
   \<and> \<not> find_match {''X2''} [{''X1'', ''Y1''}]
   \<and> mismatch_records_csv (main_report [{''X1''}, {''X2''}] [{''X1'', ''Y1''}]) = [{''X2''}]
   \<and> mismatch_records_results (main_report [{''X1''}, {''X2''}] [{''X1'', ''Y1''}]) = []
   \<and> total_mismatches (main_report [{''X1''}, {''X2''}] [{''X1'', ''Y1''}]) = 1"
  using reconcile_matched_iff_intersecting
          [of "{''X1''}" "[{''X1'', ''Y1''}]" "[{''X1''}, {''X2''}]"]
        reconcile_matched_iff_intersecting
          [of "{''X2''}" "[{''X1'', ''Y1''}]" "[{''X1''}, {''X2''}]"]
  by simp

text \<open>
  C7, as the spec states it: reconciling any collection against an identical copy of
  itself leaves nothing unmatched. The code does not do that for a record whose Identity
  Set is empty: the empty set meets no set, not even itself, so such a record is
  unmatched on both sides.
\<close>

theorem reconcile_identical_counterexample:
  "\<not> (\<forall>A :: string set list.
        mismatch_records_csv (main_report A A) = []
        \<and> mismatch_records_results (main_report A A) = []
        \<and> total_mismatches (main_report A A) = 0)"
proof
  assume "\<forall>A :: string set list.
        mismatch_records_csv (main_report A A) = []
        \<and> mismatch_records_results (main_report A A) = []
        \<and> total_mismatches (main_report A A) = 0"
  then have "total_mismatches (main_report [{} :: string set] [{}]) = 0"
    by blast
  then show False
    by (simp add: main_report_def Let_def)
qed

text \<open>
  C7, amended: for every collection whose records all have a non-empty Identity Set,
  reconciling it against an identical copy of itself yields no unmatched record in either
  direction and a total of 0.
\<close>

theorem reconcile_identical_nonempty:
  assumes "\<forall>r\<in>set A. r \<noteq> {}"
  shows "mismatch_records_csv (main_report A A) = []
         \<and> mismatch_records_results (main_report A A) = []
         \<and> mismatches_csv (main_report A A) = 0
         \<and> mismatches_results (main_report A A) = 0
         \<and> total_mismatches (main_report A A) = 0"
proof -
  have "filter (\<lambda>op. \<not> find_match op A) A = []"
    using assms by (simp add: filter_empty_conv find_match_self)
  then show ?thesis
    by (simp add: main_report_def)
qed

theorem reconcile_identical_nonempty_witness:
  "{''X1''} \<noteq> {} \<and> {''X2'', ''Y2''} \<noteq> {}
   \<and> mismatch_records_csv (main_report [{''X1''}, {''X2'', ''Y2''}] [{''X1''}, {''X2'', ''Y2''}]) = []
   \<and> mismatch_records_results (main_report [{''X1''}, {''X2'', ''Y2''}] [{''X1''}, {''X2'', ''Y2''}]) = []
   \<and> total_mismatches (main_report [{''X1''}, {''X2'', ''Y2''}] [{''X1''}, {''X2'', ''Y2''}]) = 0"
proof -
  have h: "\<forall>r\<in>set [{''X1''}, {''X2'', ''Y2''}]. r \<noteq> {}"
    by simp
  show ?thesis
    using reconcile_identical_nonempty [OF h] by simp
qed

text \<open>
  C8. A record of A whose Identity Set is empty is reported among the unmatched records
  of A whatever B is, as often as it occurs in A, and \<open>find_match\<close> answers False for
  it. Neither \<open>find_match\<close> nor the comprehensions of \<open>main\<close> have a raising
  statement: set intersection and truth testing are defined on every set, which is why
  the model has no error value.
\<close>

theorem empty_identity_always_unmatched:
  "\<not> find_match ({} :: 'a set) B
   \<and> ({} \<in> set A \<longrightarrow> {} \<in> set (mismatch_records_csv (main_report A B)))
   \<and> count_list (mismatch_records_csv (main_report A B)) {} = count_list A ({} :: 'a set)
   \<and> ({} \<in> set A \<longrightarrow> 0 < total_mismatches (main_report A B))"
proof -
  have c: "count_list (filter (\<lambda>op. \<not> find_match op B) A) {} = count_list A ({} :: 'a set)"
    by (induction A) (simp_all add: find_match_empty_set)
  have l: "{} \<in> set A \<Longrightarrow> 0 < length (filter (\<lambda>op. \<not> find_match op B) A)"
    using find_match_empty_set [of B] by (auto simp: filter_empty_conv)
  show ?thesis
    using c l by (simp add: main_report_def Let_def find_match_empty_set)
qed

theorem empty_identity_always_unmatched_witness:
  "{} \<in> set [{''X1''}, {} :: string set]
   \<and> mismatch_records_csv (main_report [{''X1''}, {}] [{''X1'', ''Y1''}, {''Z1''}]) = [{}]
   \<and> {} \<in> set (mismatch_records_csv (main_report [{''X1''}, {}] [{''X1'', ''Y1''}, {''Z1''}]))"
  using empty_identity_always_unmatched
          [of "[{''X1'', ''Y1''}, {''Z1''}]" "[{''X1''}, {} :: string set]"]
  by (simp add: main_report_def)

end
